theory Spec2Isabelle
  imports Main
begin

section \<open>Values and strings of the host language\<close>

text \<open>
  The repository is a Node.js backend (\<^verbatim>\<open>server.js\<close>, \<^verbatim>\<open>auth.js\<close>, \<^verbatim>\<open>database.js\<close>)
  over SQLite. JavaScript strings are modelled as \<^typ>\<open>string\<close>; a \<^typ>\<open>char\<close> stands for
  one code unit below 256. A value that may be of any JavaScript type (a field of a JSON
  request body handed to a validator) is a \<open>js_value\<close>; \<open>JNum\<close> carries integral numbers
  and \<open>JOther\<close> stands for arrays and objects.
\<close>

datatype js_value = JUndefined | JNull | JBool bool | JNum int | JStr string | JOther

text \<open>JavaScript truthiness, as used by \<^verbatim>\<open>!x\<close> and \<^verbatim>\<open>if (x)\<close>.\<close>

fun truthy :: "js_value \<Rightarrow> bool" where
  "truthy JUndefined = False"
| "truthy JNull = False"
| "truthy (JBool b) = b"
| "truthy (JNum n) = (n \<noteq> 0)"
| "truthy (JStr s) = (s \<noteq> [])"
| "truthy JOther = True"

text \<open>A header or body field that is a string when present: absent and empty are falsy.\<close>

fun present :: "string option \<Rightarrow> bool" where
  "present None = False"
| "present (Some s) = (s \<noteq> [])"

definition code :: "char \<Rightarrow> nat" where
  "code c = of_char c"

definition is_upper :: "char \<Rightarrow> bool" where
  "is_upper c = (65 \<le> code c \<and> code c \<le> 90)"

definition is_lower :: "char \<Rightarrow> bool" where
  "is_lower c = (97 \<le> code c \<and> code c \<le> 122)"

definition is_letter :: "char \<Rightarrow> bool" where
  \<comment> \<open>the regular expression class \<^verbatim>\<open>[a-zA-Z]\<close>\<close>
  "is_letter c = (is_lower c \<or> is_upper c)"

definition is_digit :: "char \<Rightarrow> bool" where
  \<comment> \<open>the regular expression class \<^verbatim>\<open>[0-9]\<close>\<close>
  "is_digit c = (48 \<le> code c \<and> code c \<le> 57)"

definition symbol_codes :: "nat list" where
  \<comment> \<open>the class of \<^verbatim>\<open>auth.js\<close> line 71, in its order:
      ! @ # $ % ^ & * ( ) _ + - = [ ] { } | ; : ' , . < > / ? \ ` ~ "\<close>
  "symbol_codes =
     [33, 64, 35, 36, 37, 94, 38, 42, 40, 41, 95, 43, 45, 61, 91, 93, 123, 125, 124,
      59, 58, 39, 44, 46, 60, 62, 47, 63, 92, 96, 126, 34]"

definition is_symbol :: "char \<Rightarrow> bool" where
  "is_symbol c = (code c \<in> set symbol_codes)"

definition toLowerCase_char :: "char \<Rightarrow> char" where
  \<comment> \<open>\<^verbatim>\<open>String.prototype.toLowerCase\<close> on one code unit below 256: A-Z, and the Latin-1
      capitals 0xC0-0xDE without the multiplication sign 0xD7\<close>
  "toLowerCase_char c =
     (if is_upper c \<or> (192 \<le> code c \<and> code c \<le> 222 \<and> code c \<noteq> 215)
      then char_of (code c + 32) else c)"

definition toLowerCase :: "string \<Rightarrow> string" where
  "toLowerCase s = map toLowerCase_char s"

definition is_ws :: "char \<Rightarrow> bool" where
  \<comment> \<open>white space and line terminators below 256: TAB, LF, VT, FF, CR, SP, NBSP\<close>
  "is_ws c = (code c \<in> {9, 10, 11, 12, 13, 32, 160})"

definition trim :: "string \<Rightarrow> string" where
  "trim s = rev (dropWhile is_ws (rev (dropWhile is_ws s)))"

text \<open>
  \<^verbatim>\<open>parseInt(s)\<close> without a radix: leading white space is skipped, a sign is read, a
  \<^verbatim>\<open>0x\<close> prefix selects radix 16, and the longest prefix of digits is converted; \<open>None\<close> is
  \<^verbatim>\<open>NaN\<close>. The result is exact here (JavaScript rounds beyond \<open>2^53\<close>).
\<close>

definition digit_value :: "char \<Rightarrow> nat" where
  "digit_value c =
     (if is_digit c then code c - 48
      else if is_lower c then code c - 87
      else if is_upper c then code c - 55
      else 36)"

definition parseInt :: "string \<Rightarrow> int option" where
  "parseInt s =
     (let t = dropWhile is_ws s;
          neg = (t \<noteq> [] \<and> code (hd t) = 45);
          t1 = (if t \<noteq> [] \<and> (code (hd t) = 45 \<or> code (hd t) = 43) then tl t else t);
          hex = (length t1 \<ge> 2 \<and> code (t1 ! 0) = 48 \<and> (code (t1 ! 1) = 120 \<or> code (t1 ! 1) = 88));
          radix = (if hex then 16 else 10);
          t2 = (if hex then drop 2 t1 else t1);
          ds = takeWhile (\<lambda>c. digit_value c < radix) t2;
          n = foldl (\<lambda>a c. a * int radix + int (digit_value c)) 0 ds
      in if ds = [] then None else Some (if neg then - n else n))"

section \<open>Clock values and their two text formats\<close>

text \<open>
  The clock is a number of milliseconds since 1970-01-01T00:00:00Z, as \<^verbatim>\<open>Date.now()\<close>
  returns it. Two formats of the same clock meet in the store:

  \<^item> \<^verbatim>\<open>new Date(ms).toISOString()\<close> writes \<^verbatim>\<open>YYYY-MM-DDTHH:mm:ss.sssZ\<close>; \<^verbatim>\<open>auth.js\<close>
    produces every expiry this way (\<open>generateSessionExpiry\<close> and its siblings) and the
    store keeps the text as it is;
  \<^item> SQLite's \<^verbatim>\<open>datetime('now')\<close> and \<^verbatim>\<open>CURRENT_TIMESTAMP\<close> write
    \<^verbatim>\<open>YYYY-MM-DD HH:MM:SS\<close>, with a space and whole seconds.

  Both are formatted for the years 0000 to 9999 of the proleptic Gregorian calendar.
\<close>

definition civil_from_days :: "int \<Rightarrow> int \<times> int \<times> int" where
  "civil_from_days days =
     (let z = days + 719468;
          era = z div 146097;
          doe = z mod 146097;
          yoe = (doe - doe div 1460 + doe div 36524 - doe div 146096) div 365;
          doy = doe - (365 * yoe + yoe div 4 - yoe div 100);
          mp = (5 * doy + 2) div 153;
          d = doy - (153 * mp + 2) div 5 + 1;
          m = (if mp < 10 then mp + 3 else mp - 9);
          y = yoe + era * 400 + (if m \<le> 2 then 1 else 0)
      in (y, m, d))"

definition digit :: "int \<Rightarrow> char" where
  "digit n = ''0123456789'' ! nat (n mod 10)"

definition pad2 :: "int \<Rightarrow> string" where
  "pad2 n = [digit (n div 10), digit n]"

definition pad3 :: "int \<Rightarrow> string" where
  "pad3 n = [digit (n div 100), digit (n div 10), digit n]"

definition pad4 :: "int \<Rightarrow> string" where
  "pad4 n = [digit (n div 1000), digit (n div 100), digit (n div 10), digit n]"

definition date_text :: "int \<Rightarrow> string" where
  "date_text ms =
     (case civil_from_days (ms div 86400000) of
        (y, m, d) \<Rightarrow> pad4 y @ ''-'' @ pad2 m @ ''-'' @ pad2 d)"

definition time_text :: "int \<Rightarrow> string" where
  "time_text ms =
     (let t = ms mod 86400000
      in pad2 (t div 3600000) @ '':'' @ pad2 (t div 60000 mod 60) @ '':'' @
         pad2 (t div 1000 mod 60))"

definition toISOString :: "int \<Rightarrow> string" where
  "toISOString ms = date_text ms @ ''T'' @ time_text ms @ ''.'' @ pad3 (ms mod 1000) @ ''Z''"

definition datetime_now :: "int \<Rightarrow> string" where
  \<comment> \<open>\<^verbatim>\<open>datetime('now')\<close>, also the value of \<^verbatim>\<open>CURRENT_TIMESTAMP\<close>\<close>
  "datetime_now ms = date_text ms @ '' '' @ time_text ms"

text \<open>
  The columns that hold clock values are declared \<^verbatim>\<open>DATETIME\<close> (numeric affinity); a text
  that is not a number literal stays text there, and two texts are compared bytewise
  (collation \<^verbatim>\<open>BINARY\<close>): the first differing byte decides, a proper prefix is smaller.
\<close>

fun text_lt :: "string \<Rightarrow> string \<Rightarrow> bool" where
  "text_lt [] [] = False"
| "text_lt [] (y # ys) = True"
| "text_lt (x # xs) [] = False"
| "text_lt (x # xs) (y # ys) = (code x < code y \<or> (x = y \<and> text_lt xs ys))"

definition text_gt :: "string \<Rightarrow> string \<Rightarrow> bool" where
  "text_gt a b = text_lt b a"

definition text_le :: "string \<Rightarrow> string \<Rightarrow> bool" where
  "text_le a b = (\<not> text_lt b a)"

text \<open>Collation \<^verbatim>\<open>NOCASE\<close> of the column \<^verbatim>\<open>users.email\<close>: the 26 ASCII capitals are folded.\<close>

definition nocase_char :: "char \<Rightarrow> char" where
  "nocase_char c = (if is_upper c then char_of (code c + 32) else c)"

definition nocase_eq :: "string \<Rightarrow> string \<Rightarrow> bool" where
  "nocase_eq a b = (map nocase_char a = map nocase_char b)"

section \<open>Credential and token utilities (\<^verbatim>\<open>auth.js\<close>)\<close>

definition PASSWORD_MIN_LENGTH :: nat where
  "PASSWORD_MIN_LENGTH = 12"

definition SESSION_DURATION_MS :: int where
  "SESSION_DURATION_MS = 7 * 24 * 60 * 60 * 1000"

definition VERIFICATION_EXPIRY_MS :: int where
  "VERIFICATION_EXPIRY_MS = 24 * 60 * 60 * 1000"

definition PASSWORD_RESET_EXPIRY_MS :: int where
  "PASSWORD_RESET_EXPIRY_MS = 60 * 60 * 1000"

text \<open>
  The messages of \<open>validatePassword\<close>, one constructor per message of the source:
  \<^verbatim>\<open>Password is required\<close>, \<^verbatim>\<open>Password must be at least 12 characters long\<close>,
  \<^verbatim>\<open>Password must contain at least one letter\<close>, \<^verbatim>\<open>... at least one number\<close>,
  \<^verbatim>\<open>... at least one symbol (...)\<close>.
\<close>

datatype password_error = Required | TooShort | NoLetter | NoNumber | NoSymbol

record password_validation =
  valid :: bool
  errors :: "password_error list"

definition validatePassword :: "js_value \<Rightarrow> password_validation" where
  "validatePassword password =
     (case password of
        JStr p \<Rightarrow>
          (if p = [] then \<lparr>valid = False, errors = [Required]\<rparr>
           else
             let errors0 = [];
                 errors1 = (if length p < PASSWORD_MIN_LENGTH then errors0 @ [TooShort] else errors0);
                 errors2 = (if \<not> list_ex is_letter p then errors1 @ [NoLetter] else errors1);
                 errors3 = (if \<not> list_ex is_digit p then errors2 @ [NoNumber] else errors2);
                 errors4 = (if \<not> list_ex is_symbol p then errors3 @ [NoSymbol] else errors3)
             in \<lparr>valid = (length errors4 = 0), errors = errors4\<rparr>)
      | _ \<Rightarrow> \<lparr>valid = False, errors = [Required]\<rparr>)"

definition generateSessionExpiry :: "int \<Rightarrow> string" where
  "generateSessionExpiry now = toISOString (now + SESSION_DURATION_MS)"

definition generateVerificationExpiry :: "int \<Rightarrow> string" where
  "generateVerificationExpiry now = toISOString (now + VERIFICATION_EXPIRY_MS)"

definition generatePasswordResetExpiry :: "int \<Rightarrow> string" where
  "generatePasswordResetExpiry now = toISOString (now + PASSWORD_RESET_EXPIRY_MS)"

text \<open>
  \<open>extractBearerToken\<close>: the header is split at every space; exactly two parts are
  required, the first being \<^verbatim>\<open>bearer\<close> in any case.
\<close>

fun split_space :: "string \<Rightarrow> string list" where
  "split_space [] = [[]]"
| "split_space (c # cs) =
     (if code c = 32 then [] # split_space cs
      else (case split_space cs of p # ps \<Rightarrow> (c # p) # ps | [] \<Rightarrow> [[c]]))"

definition extractBearerToken :: "string option \<Rightarrow> string option" where
  "extractBearerToken authHeader =
     (case authHeader of
        None \<Rightarrow> None
      | Some h \<Rightarrow>
          if h = [] then None
          else (case split_space h of
                  [scheme, tok] \<Rightarrow> if toLowerCase scheme = ''bearer'' then Some tok else None
                | _ \<Rightarrow> None))"

section \<open>The persistent store (\<^verbatim>\<open>database.js\<close>)\<close>

text \<open>
  One record per table of \<open>initializeSchema\<close>, with the columns in the order of the
  schema; a column that may hold \<^verbatim>\<open>NULL\<close> is an option. A table is the list of its rows
  in insertion order. The flags \<open>email_verified\<close>, \<open>is_superuser\<close> and \<open>used\<close> are
  the integers the schema declares.
\<close>

record visitor =
  v_id :: int
  v_fingerprint :: string
  v_ip_address :: "string option"
  v_user_agent :: "string option"
  v_language :: "string option"
  v_timezone :: "string option"
  v_screen_resolution :: "string option"
  v_platform :: "string option"
  v_referrer :: "string option"
  v_query_count :: int
  v_first_seen :: string
  v_last_seen :: string

record user_row =
  u_id :: int
  u_email :: string
  u_password_hash :: string
  u_email_verified :: int
  u_verification_token :: "string option"
  u_verification_expires :: "string option"
  u_tier :: string
  u_query_limit :: "int option"
  u_visitor_id :: "int option"
  u_is_superuser :: int
  u_created_at :: string
  u_last_login :: "string option"

record session_row =
  s_id :: int
  s_user_id :: int
  s_token :: string
  s_ip_address :: "string option"
  s_user_agent :: "string option"
  s_expires_at :: string
  s_created_at :: string

record query_log_row =
  q_id :: int
  q_visitor_id :: "int option"
  q_user_id :: "int option"
  q_address :: string
  q_blockchain :: "string option"
  q_query_type :: "string option"
  q_ip_address :: "string option"
  q_user_agent :: "string option"
  q_response_status :: "string option"
  q_created_at :: string

record password_reset_row =
  pr_id :: int
  pr_user_id :: int
  pr_token :: string
  pr_expires_at :: string
  pr_used :: int
  pr_created_at :: string

text \<open>
  The store: the five tables, and for each the largest row id ever given out (the keys
  are \<^verbatim>\<open>INTEGER PRIMARY KEY AUTOINCREMENT\<close>, so SQLite keeps it in \<^verbatim>\<open>sqlite_sequence\<close>).
\<close>

record store =
  visitors :: "visitor list"
  users :: "user_row list"
  sessions :: "session_row list"
  query_log :: "query_log_row list"
  password_resets :: "password_reset_row list"
  seq_visitors :: int
  seq_users :: int
  seq_sessions :: int
  seq_query_log :: int
  seq_password_resets :: int

definition new_rowid :: "int \<Rightarrow> int list \<Rightarrow> int" where
  \<comment> \<open>one more than the largest row id that ever existed in the table\<close>
  "new_rowid seq ids = max seq (fold max ids 0) + 1"

text \<open>
  A statement that violates a constraint of the schema throws; the statements that ran
  before it in the same function stay committed (there is no transaction).
\<close>

datatype sqlite_error = UniqueConstraint | ForeignKeyConstraint

text \<open>
  \<^verbatim>\<open>SELECT ... FROM a JOIN b ON ... WHERE ...\<close> yields the pairs of rows that satisfy the
  conditions, and \<^verbatim>\<open>.get()\<close> returns the first row of a result, or nothing.
\<close>

definition select_join :: "'a list \<Rightarrow> 'b list \<Rightarrow> ('a \<Rightarrow> 'b \<Rightarrow> bool) \<Rightarrow> ('a \<times> 'b) list" where
  "select_join rs us cond = [(r, u). r \<leftarrow> rs, u \<leftarrow> us, cond r u]"

definition get_first :: "'a list \<Rightarrow> 'a option" where
  "get_first rows = (case rows of [] \<Rightarrow> None | row # _ \<Rightarrow> Some row)"

subsection \<open>Visitor operations\<close>

record visitor_data =
  vd_fingerprint :: string
  vd_ip_address :: "string option"
  vd_user_agent :: "string option"
  vd_language :: "string option"
  vd_timezone :: "string option"
  vd_screen_resolution :: "string option"
  vd_platform :: "string option"
  vd_referrer :: "string option"

record upsert_result =
  ur_id :: int
  ur_fingerprint :: string
  ur_query_count :: int
  ur_queries_remaining :: int
  ur_is_new :: bool

definition coalesce :: "'a option \<Rightarrow> 'a option \<Rightarrow> 'a option" where
  "coalesce a b = (case a of Some x \<Rightarrow> Some x | None \<Rightarrow> b)"

definition getVisitorByFingerprint :: "store \<Rightarrow> string \<Rightarrow> visitor option" where
  "getVisitorByFingerprint s fingerprint =
     find (\<lambda>v. v_fingerprint v = fingerprint) (visitors s)"

definition getVisitorById :: "store \<Rightarrow> int \<Rightarrow> visitor option" where
  "getVisitorById s i = find (\<lambda>v. v_id v = i) (visitors s)"

definition upsertVisitor :: "store \<Rightarrow> int \<Rightarrow> visitor_data \<Rightarrow> store \<times> upsert_result" where
  "upsertVisitor s now d =
     (case find (\<lambda>v. v_fingerprint v = vd_fingerprint d) (visitors s) of
        Some existing \<Rightarrow>
          (s\<lparr>visitors :=
               map (\<lambda>v. if v_fingerprint v = vd_fingerprint d
                         then v\<lparr>v_last_seen := datetime_now now,
                                v_ip_address := coalesce (vd_ip_address d) (v_ip_address v),
                                v_user_agent := coalesce (vd_user_agent d) (v_user_agent v)\<rparr>
                         else v) (visitors s)\<rparr>,
           \<lparr>ur_id = v_id existing, ur_fingerprint = v_fingerprint existing,
            ur_query_count = v_query_count existing,
            ur_queries_remaining = max 0 (3 - v_query_count existing),
            ur_is_new = False\<rparr>)
      | None \<Rightarrow>
          (let i = new_rowid (seq_visitors s) (map v_id (visitors s))
           in (s\<lparr>visitors := visitors s @
                     [\<lparr>v_id = i, v_fingerprint = vd_fingerprint d,
                       v_ip_address = vd_ip_address d, v_user_agent = vd_user_agent d,
                       v_language = vd_language d, v_timezone = vd_timezone d,
                       v_screen_resolution = vd_screen_resolution d,
                       v_platform = vd_platform d, v_referrer = vd_referrer d,
                       v_query_count = 0, v_first_seen = datetime_now now,
                       v_last_seen = datetime_now now\<rparr>],
                  seq_visitors := i\<rparr>,
               \<lparr>ur_id = i, ur_fingerprint = vd_fingerprint d, ur_query_count = 0,
                ur_queries_remaining = 3, ur_is_new = True\<rparr>)))"

definition incrementVisitorQueryCount :: "store \<Rightarrow> int \<Rightarrow> store \<times> int" where
  "incrementVisitorQueryCount s visitorId =
     (let s' = s\<lparr>visitors :=
                    map (\<lambda>v. if v_id v = visitorId
                              then v\<lparr>v_query_count := v_query_count v + 1\<rparr> else v)
                        (visitors s)\<rparr>
      in (s', case getVisitorById s' visitorId of
                Some visitor \<Rightarrow> v_query_count visitor
              | None \<Rightarrow> 0))"

subsection \<open>User operations\<close>

record user_data =
  ud_email :: string
  ud_password_hash :: string
  ud_visitor_id :: "int option"
  ud_verification_token :: "string option"
  ud_verification_expires :: "string option"

record created_user =
  cu_id :: int
  cu_email :: string
  cu_email_verified :: bool
  cu_tier :: string
  cu_created_at :: string

definition createUser :: "store \<Rightarrow> int \<Rightarrow> user_data \<Rightarrow> store \<times> (sqlite_error + created_user)" where
  "createUser s now d =
     (if list_ex (\<lambda>u. nocase_eq (u_email u) (ud_email d)) (users s)
      then (s, Inl UniqueConstraint)
      else if (case ud_visitor_id d of
                 None \<Rightarrow> False
               | Some v \<Rightarrow> \<not> list_ex (\<lambda>r. v_id r = v) (visitors s))
      then (s, Inl ForeignKeyConstraint)
      else
        let i = new_rowid (seq_users s) (map u_id (users s))
        in (s\<lparr>users := users s @
                  [\<lparr>u_id = i, u_email = ud_email d, u_password_hash = ud_password_hash d,
                    u_email_verified = 0,
                    u_verification_token = ud_verification_token d,
                    u_verification_expires = ud_verification_expires d,
                    u_tier = ''free'', u_query_limit = None,
                    u_visitor_id = ud_visitor_id d, u_is_superuser = 0,
                    u_created_at = datetime_now now, u_last_login = None\<rparr>],
               seq_users := i\<rparr>,
            Inr \<lparr>cu_id = i, cu_email = ud_email d, cu_email_verified = False,
                 cu_tier = ''free'', cu_created_at = toISOString now\<rparr>))"

definition getUserByEmail :: "store \<Rightarrow> string \<Rightarrow> user_row option" where
  "getUserByEmail s email = find (\<lambda>u. nocase_eq (u_email u) email) (users s)"

definition getUserById :: "store \<Rightarrow> int \<Rightarrow> user_row option" where
  "getUserById s i = find (\<lambda>u. u_id u = i) (users s)"




definition verifyUserEmail :: "store \<Rightarrow> int \<Rightarrow> string \<Rightarrow> store \<times> bool" where
  "verifyUserEmail s now tok =
     (case find (\<lambda>u. u_verification_token u = Some tok \<and>
                     (case u_verification_expires u of
                        None \<Rightarrow> False
                      | Some e \<Rightarrow> text_gt e (datetime_now now)) \<and>
                     u_email_verified u = 0) (users s) of
        None \<Rightarrow> (s, False)
      | Some user \<Rightarrow>
          (s\<lparr>users :=
               map (\<lambda>u. if u_id u = u_id user
                         then u\<lparr>u_email_verified := 1, u_verification_token := None,
                                u_verification_expires := None\<rparr>
                         else u) (users s)\<rparr>,
           True))"

definition updateUserLastLogin :: "store \<Rightarrow> int \<Rightarrow> int \<Rightarrow> store" where
  "updateUserLastLogin s now userId =
     s\<lparr>users := map (\<lambda>u. if u_id u = userId
                           then u\<lparr>u_last_login := Some (datetime_now now)\<rparr> else u)
                     (users s)\<rparr>"

definition updateUserPassword :: "store \<Rightarrow> int \<Rightarrow> string \<Rightarrow> store" where
  "updateUserPassword s userId passwordHash =
     s\<lparr>users := map (\<lambda>u. if u_id u = userId
                           then u\<lparr>u_password_hash := passwordHash\<rparr> else u)
                     (users s)\<rparr>"

subsection \<open>Session operations\<close>

record session_data =
  sd_user_id :: int
  sd_token :: string
  sd_ip_address :: "string option"
  sd_user_agent :: "string option"
  sd_expires_at :: string

record session_result =
  sr_id :: int
  sr_token :: string
  sr_expires_at :: string

text \<open>The row \<open>getSessionByToken\<close> selects: the session's columns and three of its user's.\<close>

record session_info =
  sj_id :: int
  sj_user_id :: int
  sj_token :: string
  sj_ip_address :: "string option"
  sj_user_agent :: "string option"
  sj_expires_at :: string
  sj_created_at :: string
  sj_email :: string
  sj_email_verified :: int
  sj_tier :: string

definition createSession :: "store \<Rightarrow> int \<Rightarrow> session_data \<Rightarrow> store \<times> (sqlite_error + session_result)" where
  "createSession s now d =
     (if list_ex (\<lambda>r. s_token r = sd_token d) (sessions s)
      then (s, Inl UniqueConstraint)
      else if \<not> list_ex (\<lambda>u. u_id u = sd_user_id d) (users s)
      then (s, Inl ForeignKeyConstraint)
      else
        let i = new_rowid (seq_sessions s) (map s_id (sessions s))
        in (s\<lparr>sessions := sessions s @
                  [\<lparr>s_id = i, s_user_id = sd_user_id d, s_token = sd_token d,
                    s_ip_address = sd_ip_address d, s_user_agent = sd_user_agent d,
                    s_expires_at = sd_expires_at d, s_created_at = datetime_now now\<rparr>],
               seq_sessions := i\<rparr>,
            Inr \<lparr>sr_id = i, sr_token = sd_token d, sr_expires_at = sd_expires_at d\<rparr>))"

definition getSessionByToken :: "store \<Rightarrow> int \<Rightarrow> string \<Rightarrow> session_info option" where
  "getSessionByToken s now tok =
     (case get_first
             (select_join (sessions s) (users s)
                (\<lambda>r u. s_user_id r = u_id u \<and> s_token r = tok \<and>
                       text_gt (s_expires_at r) (datetime_now now))) of
        None \<Rightarrow> None
      | Some (r, u) \<Rightarrow>
          Some \<lparr>sj_id = s_id r, sj_user_id = u_id u, sj_token = s_token r,
                sj_ip_address = s_ip_address r, sj_user_agent = s_user_agent r,
                sj_expires_at = s_expires_at r, sj_created_at = s_created_at r,
                sj_email = u_email u, sj_email_verified = u_email_verified u,
                sj_tier = u_tier u\<rparr>)"

definition deleteSession :: "store \<Rightarrow> string \<Rightarrow> store" where
  "deleteSession s tok = s\<lparr>sessions := filter (\<lambda>r. s_token r \<noteq> tok) (sessions s)\<rparr>"

definition deleteUserSessions :: "store \<Rightarrow> int \<Rightarrow> store" where
  "deleteUserSessions s userId =
     s\<lparr>sessions := filter (\<lambda>r. s_user_id r \<noteq> userId) (sessions s)\<rparr>"

definition cleanExpiredSessions :: "store \<Rightarrow> int \<Rightarrow> store" where
  "cleanExpiredSessions s now =
     s\<lparr>sessions := filter (\<lambda>r. \<not> text_le (s_expires_at r) (datetime_now now)) (sessions s)\<rparr>"

subsection \<open>Query log operations\<close>

record query_data =
  qd_visitor_id :: "int option"
  qd_user_id :: "int option"
  qd_address :: string
  qd_blockchain :: "string option"
  qd_query_type :: "string option"
  qd_ip_address :: "string option"
  qd_user_agent :: "string option"
  qd_response_status :: string

fun or_null :: "int option \<Rightarrow> int option" where
  \<comment> \<open>\<^verbatim>\<open>x || null\<close> on a number or \<^verbatim>\<open>null\<close>: zero is falsy (\<open>None\<close> is \<^verbatim>\<open>null\<close> or \<^verbatim>\<open>NaN\<close>)\<close>
  "or_null None = None"
| "or_null (Some n) = (if n = 0 then None else Some n)"

definition logQuery :: "store \<Rightarrow> int \<Rightarrow> query_data \<Rightarrow> store \<times> (sqlite_error + int)" where
  "logQuery s now d =
     (let visitor_id = or_null (qd_visitor_id d);
          user_id = or_null (qd_user_id d)
      in if (case visitor_id of
               None \<Rightarrow> False
             | Some v \<Rightarrow> \<not> list_ex (\<lambda>r. v_id r = v) (visitors s)) \<or>
            (case user_id of
               None \<Rightarrow> False
             | Some u \<Rightarrow> \<not> list_ex (\<lambda>r. u_id r = u) (users s))
         then (s, Inl ForeignKeyConstraint)
         else
           let i = new_rowid (seq_query_log s) (map q_id (query_log s))
           in (s\<lparr>query_log := query_log s @
                     [\<lparr>q_id = i, q_visitor_id = visitor_id, q_user_id = user_id,
                       q_address = qd_address d, q_blockchain = qd_blockchain d,
                       q_query_type = qd_query_type d, q_ip_address = qd_ip_address d,
                       q_user_agent = qd_user_agent d,
                       q_response_status = Some (qd_response_status d),
                       q_created_at = datetime_now now\<rparr>],
                  seq_query_log := i\<rparr>,
               Inr i))"

record result_params =
  rp_user_id :: "int option"
  rp_visitor_id :: "int option"
  rp_address :: string
  rp_response_status :: string

text \<open>
  \<^verbatim>\<open>ORDER BY created_at DESC LIMIT 1\<close>: a row with the greatest \<open>created_at\<close>; among equal
  ones SQL leaves the choice open, and the first in table order is taken here.
\<close>

fun latest :: "query_log_row list \<Rightarrow> query_log_row option" where
  "latest [] = None"
| "latest (q # qs) =
     (case latest qs of
        None \<Rightarrow> Some q
      | Some r \<Rightarrow> if text_lt (q_created_at q) (q_created_at r) then Some r else Some q)"

text \<open>
  The match predicate \<^verbatim>\<open>address = ? AND (user_id = ? OR visitor_id = ?)\<close>: a comparison
  with \<^verbatim>\<open>NULL\<close>, on either side, is never true.
\<close>

definition result_match :: "int option \<Rightarrow> int option \<Rightarrow> string \<Rightarrow> query_log_row \<Rightarrow> bool" where
  "result_match user_id visitor_id address q =
     (q_address q = address \<and>
      ((user_id \<noteq> None \<and> q_user_id q = user_id) \<or>
       (visitor_id \<noteq> None \<and> q_visitor_id q = visitor_id)))"

definition updateQueryResult :: "store \<Rightarrow> result_params \<Rightarrow> store \<times> bool" where
  "updateQueryResult s p =
     (case latest (filter (result_match (or_null (rp_user_id p)) (or_null (rp_visitor_id p))
                             (rp_address p)) (query_log s)) of
        None \<Rightarrow> (s, False)
      | Some q \<Rightarrow>
          (s\<lparr>query_log :=
               map (\<lambda>r. if q_id r = q_id q
                         then r\<lparr>q_response_status := Some (rp_response_status p)\<rparr> else r)
                   (query_log s)\<rparr>,
           True))"

subsection \<open>Password reset operations\<close>

definition createPasswordReset ::
  "store \<Rightarrow> int \<Rightarrow> int \<Rightarrow> string \<Rightarrow> string \<Rightarrow> store \<times> (sqlite_error + int \<times> string)" where
  "createPasswordReset s now userId tok expiresAt =
     (let s1 = s\<lparr>password_resets :=
                    map (\<lambda>r. if pr_user_id r = userId \<and> pr_used r = 0
                              then r\<lparr>pr_used := 1\<rparr> else r)
                        (password_resets s)\<rparr>
      in if list_ex (\<lambda>r. pr_token r = tok) (password_resets s1)
         then (s1, Inl UniqueConstraint)
         else if \<not> list_ex (\<lambda>u. u_id u = userId) (users s1)
         then (s1, Inl ForeignKeyConstraint)
         else
           let i = new_rowid (seq_password_resets s1) (map pr_id (password_resets s1))
           in (s1\<lparr>password_resets := password_resets s1 @
                      [\<lparr>pr_id = i, pr_user_id = userId, pr_token = tok,
                        pr_expires_at = expiresAt, pr_used = 0,
                        pr_created_at = datetime_now now\<rparr>],
                   seq_password_resets := i\<rparr>,
               Inr (i, tok)))"

text \<open>The reset row together with the email of its user (\<^verbatim>\<open>SELECT pr.*, u.email\<close>).\<close>

definition getPasswordResetByToken ::
  "store \<Rightarrow> int \<Rightarrow> string \<Rightarrow> (password_reset_row \<times> string) option" where
  "getPasswordResetByToken s now tok =
     (case get_first
             (select_join (password_resets s) (users s)
                (\<lambda>r u. pr_user_id r = u_id u \<and> pr_token r = tok \<and>
                       text_gt (pr_expires_at r) (datetime_now now) \<and> pr_used r = 0)) of
        None \<Rightarrow> None
      | Some (r, u) \<Rightarrow> Some (r, u_email u))"

definition markPasswordResetUsed :: "store \<Rightarrow> string \<Rightarrow> store" where
  "markPasswordResetUsed s tok =
     s\<lparr>password_resets :=
         map (\<lambda>r. if pr_token r = tok then r\<lparr>pr_used := 1\<rparr> else r) (password_resets s)\<rparr>"

subsection \<open>The mutating operations as one step function\<close>

datatype store_op =
    UpsertVisitor visitor_data
  | IncrementVisitorQueryCount int
  | CreateUser user_data
  | VerifyUserEmail string
  | UpdateUserLastLogin int
  | UpdateUserPassword int string
  | CreateSession session_data
  | DeleteSession string
  | DeleteUserSessions int
  | CleanExpiredSessions
  | LogQuery query_data
  | UpdateQueryResult result_params
  | CreatePasswordReset int string string
  | MarkPasswordResetUsed string

fun apply_op :: "store \<Rightarrow> int \<Rightarrow> store_op \<Rightarrow> store" where
  "apply_op s now (UpsertVisitor d) = fst (upsertVisitor s now d)"
| "apply_op s now (IncrementVisitorQueryCount i) = fst (incrementVisitorQueryCount s i)"
| "apply_op s now (CreateUser d) = fst (createUser s now d)"
| "apply_op s now (VerifyUserEmail tok) = fst (verifyUserEmail s now tok)"
| "apply_op s now (UpdateUserLastLogin i) = updateUserLastLogin s now i"
| "apply_op s now (UpdateUserPassword i h) = updateUserPassword s i h"
| "apply_op s now (CreateSession d) = fst (createSession s now d)"
| "apply_op s now (DeleteSession tok) = deleteSession s tok"
| "apply_op s now (DeleteUserSessions i) = deleteUserSessions s i"
| "apply_op s now CleanExpiredSessions = cleanExpiredSessions s now"
| "apply_op s now (LogQuery d) = fst (logQuery s now d)"
| "apply_op s now (UpdateQueryResult p) = fst (updateQueryResult s p)"
| "apply_op s now (CreatePasswordReset i tok e) = fst (createPasswordReset s now i tok e)"
| "apply_op s now (MarkPasswordResetUsed tok) = markPasswordResetUsed s tok"

section \<open>Request handlers (\<^verbatim>\<open>server.js\<close>, \<^verbatim>\<open>auth.js\<close>)\<close>



text \<open>
  A response is a status and the members of the JSON object handed to \<^verbatim>\<open>res.json\<close>, in
  the order of the source. A handler runs to its end without interleaving; it takes the
  store and the clock, and returns the store it leaves and its response. An exception
  inside the \<^verbatim>\<open>try\<close> block leads to the status 500 of the \<^verbatim>\<open>catch\<close> block.
\<close>

datatype json = JB bool | JN int | JS string | JErrors "password_error list"

record response =
  status :: nat
  body :: "(string \<times> json) list"

text \<open>
  \<^verbatim>\<open>if (token) { const session = db.getSessionByToken(token); if (session) ... }\<close>,
  the prelude shared by the handlers below.
\<close>

definition session_of :: "store \<Rightarrow> int \<Rightarrow> string option \<Rightarrow> session_info option" where
  "session_of s now token =
     (case token of
        None \<Rightarrow> None
      | Some t \<Rightarrow> if t = [] then None else getSessionByToken s now t)"

subsection \<open>POST /api/query\<close>

text \<open>
  The fields of the body are strings when present. \<open>rq_ip_address\<close> is what
  \<open>getClientIP\<close> returns for the request.
\<close>

record query_request =
  rq_address :: "string option"
  rq_blockchain :: "string option"
  rq_query_type :: "string option"
  rq_authorization :: "string option"
  rq_x_visitor_id :: "string option"
  rq_ip_address :: string
  rq_user_agent :: "string option"

definition limit_reached :: response where
  "limit_reached =
     \<lparr>status = 200,
      body = [(''allowed'', JB False), (''require_login'', JB True),
              (''message'',
               JS ''Free query limit reached. Please create an account to continue.'')]\<rparr>"

definition query_failed :: response where
  "query_failed =
     \<lparr>status = 500, body = [(''error'', JS ''Failed to check query permission'')]\<rparr>"

definition post_query :: "store \<Rightarrow> int \<Rightarrow> query_request \<Rightarrow> store \<times> response" where
  "post_query s now req =
     (let token = extractBearerToken (rq_authorization req);
          visitor_id = rq_x_visitor_id req
      in case rq_address req of
           None \<Rightarrow> (s, \<lparr>status = 400, body = [(''error'', JS ''Address is required'')]\<rparr>)
         | Some address \<Rightarrow>
      if address = []
      then (s, \<lparr>status = 400, body = [(''error'', JS ''Address is required'')]\<rparr>)
      else
        (case session_of s now token of
           Some session \<Rightarrow>
             (case logQuery s now
                     \<lparr>qd_visitor_id = None, qd_user_id = Some (sj_user_id session),
                      qd_address = address, qd_blockchain = rq_blockchain req,
                      qd_query_type = rq_query_type req,
                      qd_ip_address = Some (rq_ip_address req),
                      qd_user_agent = rq_user_agent req,
                      qd_response_status = ''success''\<rparr> of
                (s1, Inl e) \<Rightarrow> (s1, query_failed)
              | (s1, Inr i) \<Rightarrow>
                  (s1, \<lparr>status = 200,
                        body = [(''allowed'', JB True), (''authenticated'', JB True)]\<rparr>))
         | None \<Rightarrow>
             (case visitor_id of
                None \<Rightarrow>
                  (s, \<lparr>status = 400,
                       body = [(''error'', JS ''Visitor ID required for anonymous queries''),
                               (''require_login'', JB True)]\<rparr>)
              | Some h \<Rightarrow>
             if h = []
             then (s, \<lparr>status = 400,
                       body = [(''error'', JS ''Visitor ID required for anonymous queries''),
                               (''require_login'', JB True)]\<rparr>)
             else
               (case (case parseInt h of None \<Rightarrow> None | Some n \<Rightarrow> getVisitorById s n) of
                  None \<Rightarrow>
                    (s, \<lparr>status = 400,
                         body = [(''error'', JS ''Invalid visitor ID''),
                                 (''require_login'', JB True)]\<rparr>)
                | Some visitor \<Rightarrow>
                    if v_query_count visitor \<ge> 3 then (s, limit_reached)
                    else
                      (case incrementVisitorQueryCount s (v_id visitor) of
                         (s1, newCount) \<Rightarrow>
                           (case logQuery s1 now
                                   \<lparr>qd_visitor_id = Some (v_id visitor), qd_user_id = None,
                                    qd_address = address, qd_blockchain = rq_blockchain req,
                                    qd_query_type = rq_query_type req,
                                    qd_ip_address = Some (rq_ip_address req),
                                    qd_user_agent = rq_user_agent req,
                                    qd_response_status = ''success''\<rparr> of
                              (s2, Inl e) \<Rightarrow> (s2, query_failed)
                            | (s2, Inr i) \<Rightarrow>
                                (s2, \<lparr>status = 200,
                                      body = [(''allowed'', JB True),
                                              (''authenticated'', JB False),
                                              (''queries_remaining'',
                                               JN (max 0 (3 - newCount)))]\<rparr>)))))))"

subsection \<open>POST /api/query/result\<close>

record result_request =
  rs_address :: "string option"
  rs_response_status :: "string option"
  rs_authorization :: "string option"
  rs_x_visitor_id :: "string option"

definition validStatuses :: "string list" where
  "validStatuses = [''found'', ''no_data'', ''invalid'']"

definition post_query_result :: "store \<Rightarrow> int \<Rightarrow> result_request \<Rightarrow> store \<times> response" where
  "post_query_result s now req =
     (case (rs_address req, rs_response_status req) of
        (Some address, Some response_status) \<Rightarrow>
          if address = [] \<or> response_status = []
          then (s, \<lparr>status = 400,
                    body = [(''error'', JS ''Address and response_status are required'')]\<rparr>)
          else if response_status \<notin> set validStatuses
          then (s, \<lparr>status = 400,
                    body = [(''error'', JS ''Invalid response_status value'')]\<rparr>)
          else
            let user_id =
                  (case session_of s now (extractBearerToken (rs_authorization req)) of
                     Some session \<Rightarrow> Some (sj_user_id session)
                   | None \<Rightarrow> None);
                visitor_id =
                  (if or_null user_id = None
                   then (case rs_x_visitor_id req of
                           None \<Rightarrow> None
                         | Some h \<Rightarrow> if h = [] then None else parseInt h)
                   else None)
            in (case updateQueryResult s
                       \<lparr>rp_user_id = user_id, rp_visitor_id = visitor_id,
                        rp_address = address, rp_response_status = response_status\<rparr> of
                  (s1, changed) \<Rightarrow> (s1, \<lparr>status = 200, body = [(''success'', JB True)]\<rparr>))
      | _ \<Rightarrow>
          (s, \<lparr>status = 400,
               body = [(''error'', JS ''Address and response_status are required'')]\<rparr>))"

subsection \<open>POST /api/auth/forgot-password\<close>

definition reset_email_sent :: response where
  "reset_email_sent =
     \<lparr>status = 200,
      body = [(''success'', JB True),
              (''message'', JS ''If an account exists, a reset email has been sent'')]\<rparr>"

text \<open>
  \<open>tok\<close> is the value \<open>generateToken\<close> returns in this request (a version 4 UUID).
  A truthy email that is not a string has no \<^verbatim>\<open>trim\<close>: the call throws.
\<close>

definition post_forgot_password :: "store \<Rightarrow> int \<Rightarrow> string \<Rightarrow> js_value \<Rightarrow> store \<times> response" where
  "post_forgot_password s now tok email =
     (if \<not> truthy email
      then (s, \<lparr>status = 400, body = [(''error'', JS ''Email is required'')]\<rparr>)
      else
        (case email of
           JStr e \<Rightarrow>
             (case getUserByEmail s (toLowerCase (trim e)) of
                None \<Rightarrow> (s, reset_email_sent)
              | Some user \<Rightarrow>
                  (case createPasswordReset s now (u_id user) tok
                          (generatePasswordResetExpiry now) of
                     (s1, Inl err) \<Rightarrow>
                       (s1, \<lparr>status = 500,
                             body = [(''error'', JS ''Failed to process request'')]\<rparr>)
                   | (s1, Inr r) \<Rightarrow> (s1, reset_email_sent)))
         | _ \<Rightarrow> (s, \<lparr>status = 500, body = [(''error'', JS ''Failed to process request'')]\<rparr>)))"

subsection \<open>POST /api/auth/reset-password\<close>

record reset_request =
  rr_token :: "string option"
  rr_password :: js_value

text \<open>\<open>password_hash\<close> is the hash \<open>hashPassword\<close> (bcrypt) yields for the new password.\<close>

definition post_reset_password ::
  "store \<Rightarrow> int \<Rightarrow> string \<Rightarrow> reset_request \<Rightarrow> store \<times> response" where
  "post_reset_password s now password_hash req =
     (case rr_token req of
        None \<Rightarrow>
          (s, \<lparr>status = 400, body = [(''error'', JS ''Token and password are required'')]\<rparr>)
      | Some token \<Rightarrow>
      if token = [] \<or> \<not> truthy (rr_password req)
      then (s, \<lparr>status = 400, body = [(''error'', JS ''Token and password are required'')]\<rparr>)
      else
        let passwordValidation = validatePassword (rr_password req)
        in if \<not> valid passwordValidation
           then (s, \<lparr>status = 400,
                     body = [(''error'', JS ''Password does not meet requirements''),
                             (''details'', JErrors (errors passwordValidation))]\<rparr>)
           else
             (case getPasswordResetByToken s now token of
                None \<Rightarrow>
                  (s, \<lparr>status = 400,
                       body = [(''error'', JS ''Invalid or expired reset token'')]\<rparr>)
              | Some (reset, email) \<Rightarrow>
                  (let s1 = updateUserPassword s (pr_user_id reset) password_hash;
                       s2 = markPasswordResetUsed s1 token;
                       s3 = deleteUserSessions s2 (pr_user_id reset)
                   in (s3, \<lparr>status = 200,
                            body = [(''success'', JB True),
                                    (''message'', JS ''Password updated successfully'')]\<rparr>))))"

subsection \<open>GET /api/queries/history/all\<close>


section \<open>A sample store\<close>

text \<open>
  The store the closed theorems below are evaluated on, at the clock \<open>T0\<close>
  (2024-01-01T10:00:00.000Z): two visitors, one below and one at the ceiling of three
  queries; two users, the second with the stored superuser flag; a session for each,
  created at \<open>T0\<close>; one unused reset token of the first user, an hour long.
\<close>

definition T0 :: int where
  "T0 = 1704103200000"

definition visitor1 :: visitor where
  "visitor1 =
     \<lparr>v_id = 1, v_fingerprint = ''abc123'', v_ip_address = Some ''10.0.0.1'',
      v_user_agent = Some ''Mozilla'', v_language = None, v_timezone = None,
      v_screen_resolution = None, v_platform = None, v_referrer = None,
      v_query_count = 2, v_first_seen = ''2024-01-01 09:00:00'',
      v_last_seen = ''2024-01-01 09:30:00''\<rparr>"

definition visitor2 :: visitor where
  "visitor2 =
     \<lparr>v_id = 2, v_fingerprint = ''def456'', v_ip_address = Some ''10.0.0.2'',
      v_user_agent = None, v_language = None, v_timezone = None,
      v_screen_resolution = None, v_platform = None, v_referrer = None,
      v_query_count = 3, v_first_seen = ''2024-01-01 09:00:00'',
      v_last_seen = ''2024-01-01 09:40:00''\<rparr>"

definition user1 :: user_row where
  "user1 =
     \<lparr>u_id = 1, u_email = ''user@test.com'', u_password_hash = ''hash-1'',
      u_email_verified = 1, u_verification_token = None, u_verification_expires = None,
      u_tier = ''free'', u_query_limit = None, u_visitor_id = None, u_is_superuser = 0,
      u_created_at = ''2024-01-01 08:00:00'', u_last_login = None\<rparr>"

definition user2 :: user_row where
  "user2 =
     \<lparr>u_id = 2, u_email = ''ops@test.com'', u_password_hash = ''hash-2'',
      u_email_verified = 1, u_verification_token = None, u_verification_expires = None,
      u_tier = ''free'', u_query_limit = None, u_visitor_id = None, u_is_superuser = 1,
      u_created_at = ''2024-01-01 08:00:00'', u_last_login = None\<rparr>"

definition session1 :: session_row where
  "session1 =
     \<lparr>s_id = 1, s_user_id = 1, s_token = ''session-1'', s_ip_address = None,
      s_user_agent = None, s_expires_at = ''2024-01-08T10:00:00.000Z'',
      s_created_at = ''2024-01-01 10:00:00''\<rparr>"

definition session2 :: session_row where
  "session2 =
     \<lparr>s_id = 2, s_user_id = 2, s_token = ''session-2'', s_ip_address = None,
      s_user_agent = None, s_expires_at = ''2024-01-08T10:00:00.000Z'',
      s_created_at = ''2024-01-01 10:00:00''\<rparr>"

definition reset1 :: password_reset_row where
  "reset1 =
     \<lparr>pr_id = 1, pr_user_id = 1, pr_token = ''reset-1'',
      pr_expires_at = ''2024-01-01T11:00:00.000Z'', pr_used = 0,
      pr_created_at = ''2024-01-01 10:00:00''\<rparr>"

definition sample :: store where
  "sample =
     \<lparr>visitors = [visitor1, visitor2], users = [user1, user2],
      sessions = [session1, session2], query_log = [], password_resets = [reset1],
      seq_visitors = 2, seq_users = 2, seq_sessions = 2, seq_query_log = 0,
      seq_password_resets = 1\<rparr>"

definition anonymous_request :: "string \<Rightarrow> query_request" where
  \<comment> \<open>a lookup without a bearer token, under the given \<^verbatim>\<open>X-Visitor-Id\<close>\<close>
  "anonymous_request h =
     \<lparr>rq_address = Some ''0xabc'', rq_blockchain = Some ''Ethereum'',
      rq_query_type = Some ''address'', rq_authorization = None,
      rq_x_visitor_id = Some h, rq_ip_address = ''10.0.0.1'',
      rq_user_agent = Some ''Mozilla''\<rparr>"

definition bearer_request :: "string \<Rightarrow> query_request" where
  \<comment> \<open>a lookup under the given \<^verbatim>\<open>Authorization\<close> header, without a visitor id\<close>
  "bearer_request h =
     \<lparr>rq_address = Some ''0xabc'', rq_blockchain = Some ''Ethereum'',
      rq_query_type = Some ''address'', rq_authorization = Some h,
      rq_x_visitor_id = None, rq_ip_address = ''10.0.0.1'',
      rq_user_agent = Some ''Mozilla''\<rparr>"

definition login :: session_data where
  \<comment> \<open>the session the login handler creates for the first user at \<open>T0\<close>\<close>
  "login =
     \<lparr>sd_user_id = 1, sd_token = ''session-3'', sd_ip_address = Some ''10.0.0.1'',
      sd_user_agent = Some ''Mozilla'', sd_expires_at = generateSessionExpiry T0\<rparr>"

definition issued :: store where
  \<comment> \<open>the sample store after the first user asks for a password reset at \<open>T0\<close>\<close>
  "issued = fst (post_forgot_password sample T0 ''reset-2'' (JStr ''user@test.com''))"

definition new_password :: "string \<Rightarrow> reset_request" where
  \<comment> \<open>the body of a reset request under the given token\<close>
  "new_password token = \<lparr>rr_token = Some token, rr_password = JStr ''Passw0rd!2345''\<rparr>"

definition returning :: visitor_data where
  \<comment> \<open>the first visitor comes back from another address, without a user agent\<close>
  "returning =
     \<lparr>vd_fingerprint = ''abc123'', vd_ip_address = Some ''10.0.0.9'',
      vd_user_agent = None, vd_language = Some ''en'', vd_timezone = None,
      vd_screen_resolution = None, vd_platform = None, vd_referrer = None\<rparr>"

definition logged :: store where
  \<comment> \<open>the sample store after the first visitor's third lookup, which is in the log\<close>
  "logged = fst (post_query sample T0 (anonymous_request ''1''))"

definition report :: result_request where
  \<comment> \<open>the outcome of that lookup, reported without a token and without a visitor id\<close>
  "report =
     \<lparr>rs_address = Some ''0xabc'', rs_response_status = Some ''found'',
      rs_authorization = None, rs_x_visitor_id = None\<rparr>"

section \<open>What the schema guarantees\<close>

text \<open>
  The store \<open>initializeSchema\<close> leaves on its first run, and the constraints of the schema
  that the theorems below rely on: session tokens and reset tokens are unique
  (\<^verbatim>\<open>UNIQUE\<close>), and the keys of users and visitors are the positive numbers SQLite
  assigns.
\<close>

definition empty_store :: store where
  "empty_store =
     \<lparr>visitors = [], users = [], sessions = [], query_log = [], password_resets = [],
      seq_visitors = 0, seq_users = 0, seq_sessions = 0, seq_query_log = 0,
      seq_password_resets = 0\<rparr>"

definition consistent :: "store \<Rightarrow> bool" where
  "consistent s \<longleftrightarrow>
     distinct (map s_token (sessions s)) \<and>
     distinct (map pr_token (password_resets s)) \<and>
     list_all (\<lambda>u. 0 < u_id u) (users s) \<and>
     list_all (\<lambda>v. 0 < v_id v) (visitors s)"

section \<open>The expiry test compares dates\<close>

text \<open>
  The expiry of a session, a reset token or a verification token is stored in the ISO
  format and tested against \<^verbatim>\<open>datetime('now')\<close> as text. The two texts agree in layout on
  their first ten bytes, the date; the eleventh is \<^verbatim>\<open>T\<close> (0x54) in the one and a space
  (0x20) in the other. So the test \<^verbatim>\<open>expires_at > datetime('now')\<close> holds exactly when the
  date of the expiry is not before the date of the clock: the time of day never counts.
\<close>

lemma code_inj: "code x = code y \<Longrightarrow> x = y"
  by (simp add: code_def)

lemma text_lt_irrefl: "\<not> text_lt a a"
  by (induction a) simp_all

lemma text_lt_total: "text_lt a b \<or> a = b \<or> text_lt b a"
proof (induction a b rule: text_lt.induct)
  case (4 x xs y ys)
  then show ?case
    using code_inj [of x y] by (cases "code x < code y"; cases "code y < code x") auto
qed simp_all

lemma text_lt_asym: "text_lt a b \<Longrightarrow> \<not> text_lt b a"
  by (induction a b rule: text_lt.induct) auto

lemma text_lt_append:
  "length a = length b \<Longrightarrow> text_lt (a @ u) (b @ v) = (text_lt a b \<or> (a = b \<and> text_lt u v))"
proof (induction a b rule: list_induct2)
  case Nil
  then show ?case by simp
next
  case (Cons x xs y ys)
  then show ?case by (auto simp: text_lt_irrefl)
qed

lemma length_date_text: "length (date_text ms) = 10"
  by (simp add: date_text_def pad4_def pad2_def split: prod.split)

lemma expiry_test_by_date:
  "text_gt (toISOString e) (datetime_now n) = (\<not> text_lt (date_text e) (date_text n))"
proof -
  have "text_gt (toISOString e) (datetime_now n) =
        (text_lt (date_text n) (date_text e) \<or> date_text n = date_text e)"
    unfolding text_gt_def toISOString_def datetime_now_def
    by (simp add: text_lt_append length_date_text code_def)
  also have "\<dots> = (\<not> text_lt (date_text e) (date_text n))"
    using text_lt_total [of "date_text n" "date_text e"]
      text_lt_asym [of "date_text n" "date_text e"] text_lt_irrefl [of "date_text e"]
    by auto
  finally show ?thesis .
qed

section \<open>Facts about the store operations\<close>

lemma find_mem: "find P xs = Some x \<Longrightarrow> x \<in> set xs \<and> P x"
  by (induction xs) (auto split: if_splits)

lemma find_map_same:
  "(\<And>x. P (f x) = P x) \<Longrightarrow> find P (map f xs) = map_option f (find P xs)"
  by (induction xs) auto

lemma find_append_Some: "find P xs = Some x \<Longrightarrow> find P (xs @ ys) = Some x"
  by (induction xs) (auto split: if_splits)

lemma getVisitorById_mem: "getVisitorById s n = Some v \<Longrightarrow> v \<in> set (visitors s) \<and> v_id v = n"
  by (auto simp: getVisitorById_def dest: find_mem)

lemma visitors_increment:
  "visitors (fst (incrementVisitorQueryCount s i)) =
     map (\<lambda>v. if v_id v = i then v\<lparr>v_query_count := v_query_count v + 1\<rparr> else v) (visitors s)"
  by (simp add: incrementVisitorQueryCount_def Let_def)

lemma getVisitorById_increment:
  "getVisitorById (fst (incrementVisitorQueryCount s i)) j =
     map_option (\<lambda>v. if v_id v = i then v\<lparr>v_query_count := v_query_count v + 1\<rparr> else v)
       (getVisitorById s j)"
  unfolding getVisitorById_def visitors_increment
  by (rule find_map_same) simp

lemma incrementVisitorQueryCount_result:
  "getVisitorById s i = Some v \<Longrightarrow>
   incrementVisitorQueryCount s i =
     (fst (incrementVisitorQueryCount s i), v_query_count v + 1)"
proof -
  assume a: "getVisitorById s i = Some v"
  then have "v_id v = i" by (simp add: getVisitorById_mem)
  with a have "getVisitorById (fst (incrementVisitorQueryCount s i)) i =
      Some (v\<lparr>v_query_count := v_query_count v + 1\<rparr>)"
    by (simp add: getVisitorById_increment)
  then have "snd (incrementVisitorQueryCount s i) = v_query_count v + 1"
    by (simp add: incrementVisitorQueryCount_def Let_def)
  then show ?thesis by (simp add: prod_eq_iff)
qed

lemma increment_other_tables:
  "users (fst (incrementVisitorQueryCount s i)) = users s \<and>
   sessions (fst (incrementVisitorQueryCount s i)) = sessions s \<and>
   query_log (fst (incrementVisitorQueryCount s i)) = query_log s \<and>
   password_resets (fst (incrementVisitorQueryCount s i)) = password_resets s"
  by (simp add: incrementVisitorQueryCount_def Let_def)

lemma logQuery_inserts:
  assumes "case or_null (qd_visitor_id d) of None \<Rightarrow> True
           | Some i \<Rightarrow> \<exists>v \<in> set (visitors s). v_id v = i"
    and "case or_null (qd_user_id d) of None \<Rightarrow> True
         | Some i \<Rightarrow> \<exists>u \<in> set (users s). u_id u = i"
  shows "\<exists>row i. logQuery s now d =
            (s\<lparr>query_log := query_log s @ [row], seq_query_log := i\<rparr>, Inr i) \<and>
          q_visitor_id row = or_null (qd_visitor_id d) \<and>
          q_user_id row = or_null (qd_user_id d)"
  using assms by (auto simp: logQuery_def Let_def list_ex_iff split: option.splits)

lemma parseInt_Nil: "parseInt [] = None"
  by (simp add: parseInt_def)

lemma set_select_join:
  "set (select_join rs us cond) = {(r, u). r \<in> set rs \<and> u \<in> set us \<and> cond r u}"
  by (auto simp: select_join_def)

lemma get_first_None: "get_first rows = None \<longleftrightarrow> set rows = {}"
  by (cases rows) (simp_all add: get_first_def)

lemma get_first_mem: "get_first rows = Some row \<Longrightarrow> row \<in> set rows"
  by (cases rows) (simp_all add: get_first_def)

lemma getSessionByToken_row:
  assumes "getSessionByToken s now t = Some sess"
  shows "\<exists>r \<in> set (sessions s). \<exists>u \<in> set (users s).
           s_user_id r = u_id u \<and> s_token r = t \<and> sj_user_id sess = u_id u \<and>
           sj_email sess = u_email u \<and> text_gt (s_expires_at r) (datetime_now now)"
proof -
  from assms obtain r u where
    g: "get_first (select_join (sessions s) (users s)
            (\<lambda>r u. s_user_id r = u_id u \<and> s_token r = t \<and>
                   text_gt (s_expires_at r) (datetime_now now))) = Some (r, u)"
    and e: "sj_user_id sess = u_id u" "sj_email sess = u_email u"
    unfolding getSessionByToken_def by (auto split: option.splits)
  from get_first_mem [OF g] e show ?thesis
    unfolding set_select_join by auto
qed

lemma getSessionByToken_user:
  "getSessionByToken s now t = Some sess \<Longrightarrow> \<exists>u \<in> set (users s). u_id u = sj_user_id sess"
  by (drule getSessionByToken_row) auto

lemma getSessionByToken_None:
  assumes "\<And>r. r \<in> set (sessions s) \<Longrightarrow> s_token r \<noteq> t"
  shows "getSessionByToken s now t = None"
proof -
  have "get_first (select_join (sessions s) (users s)
            (\<lambda>r u. s_user_id r = u_id u \<and> s_token r = t \<and>
                   text_gt (s_expires_at r) (datetime_now now))) = None"
    unfolding get_first_None set_select_join using assms by auto
  then show ?thesis by (simp add: getSessionByToken_def)
qed

section \<open>Facts about password reset tokens\<close>

text \<open>
  Issuing a token with \<open>createPasswordReset\<close> leaves exactly one unused token of that
  user, the new one; no earlier token of the user can be fetched afterwards, at any
  clock; and a token that was marked used can not be fetched again.
\<close>

lemma tokens_after_marking:
  "map pr_token (map (\<lambda>r. if c r then r\<lparr>pr_used := 1\<rparr> else r) xs) = map pr_token xs"
  by (induction xs) auto

lemma createPasswordReset_rows:
  assumes "createPasswordReset s now uid tok e = (s', Inr r)"
  shows "\<exists>row. password_resets s' =
           map (\<lambda>r. if pr_user_id r = uid \<and> pr_used r = 0 then r\<lparr>pr_used := 1\<rparr> else r)
             (password_resets s) @ [row] \<and>
         pr_user_id row = uid \<and> pr_token row = tok \<and> pr_expires_at row = e \<and>
         pr_used row = 0 \<and> users s' = users s \<and> sessions s' = sessions s \<and>
         tok \<notin> set (map pr_token (password_resets s))"
proof -
  let ?m = "map (\<lambda>r. if pr_user_id r = uid \<and> pr_used r = 0 then r\<lparr>pr_used := 1\<rparr> else r)
             (password_resets s)"
  have l: "list_ex (\<lambda>r. pr_token r = tok) ?m \<longleftrightarrow> tok \<in> set (map pr_token (password_resets s))"
    unfolding list_ex_iff tokens_after_marking [symmetric, of "password_resets s"
        "\<lambda>r. pr_user_id r = uid \<and> pr_used r = 0"]
    by (simp only: set_map) blast
  from assms show ?thesis
    unfolding createPasswordReset_def Let_def
    by (simp add: l split: if_splits) auto
qed


lemma createPasswordReset_one_unused:
  assumes "createPasswordReset s now uid tok e = (s', Inr r)"
  shows "length (filter (\<lambda>r. pr_user_id r = uid \<and> pr_used r = 0) (password_resets s')) = 1"
proof -
  have "filter (\<lambda>r. pr_user_id r = uid \<and> pr_used r = 0)
          (map (\<lambda>r. if pr_user_id r = uid \<and> pr_used r = 0 then r\<lparr>pr_used := 1\<rparr> else r) xs) = []"
    for xs :: "password_reset_row list"
    by (induction xs) auto
  with createPasswordReset_rows [OF assms] show ?thesis by auto
qed

lemma getPasswordResetByToken_None:
  assumes "\<And>r. r \<in> set (password_resets s) \<Longrightarrow> pr_token r = tok \<Longrightarrow> pr_used r \<noteq> 0"
  shows "getPasswordResetByToken s now tok = None"
proof -
  have "get_first (select_join (password_resets s) (users s)
                (\<lambda>r u. pr_user_id r = u_id u \<and> pr_token r = tok \<and>
                       text_gt (pr_expires_at r) (datetime_now now) \<and> pr_used r = 0)) = None"
    unfolding get_first_None set_select_join using assms by auto
  then show ?thesis by (simp add: getPasswordResetByToken_def)
qed

lemma getPasswordResetByToken_row:
  assumes "getPasswordResetByToken s now tok = Some (r, email)"
  shows "r \<in> set (password_resets s) \<and> pr_token r = tok \<and> pr_used r = 0 \<and>
         text_gt (pr_expires_at r) (datetime_now now) \<and>
         (\<exists>u \<in> set (users s). u_id u = pr_user_id r)"
proof -
  from assms obtain u where
    g: "get_first (select_join (password_resets s) (users s)
                (\<lambda>r u. pr_user_id r = u_id u \<and> pr_token r = tok \<and>
                       text_gt (pr_expires_at r) (datetime_now now) \<and> pr_used r = 0))
        = Some (r, u)"
    unfolding getPasswordResetByToken_def by (auto split: option.splits)
  from get_first_mem [OF g] show ?thesis
    unfolding set_select_join by auto
qed

lemma distinct_map_eqD:
  "distinct (map f xs) \<Longrightarrow> x \<in> set xs \<Longrightarrow> y \<in> set xs \<Longrightarrow> f x = f y \<Longrightarrow> x = y"
  by (simp add: distinct_map inj_on_def)

lemma earlier_reset_token_rejected:
  assumes c: "createPasswordReset s now uid tok e = (s', Inr r)"
    and old: "row \<in> set (password_resets s)" "pr_user_id row = uid"
    and uniq: "distinct (map pr_token (password_resets s))"
  shows "getPasswordResetByToken s' now' (pr_token row) = None"
proof (rule getPasswordResetByToken_None)
  fix x assume x: "x \<in> set (password_resets s')" "pr_token x = pr_token row"
  define f :: "password_reset_row \<Rightarrow> password_reset_row"
    where "f = (\<lambda>r. if pr_user_id r = uid \<and> pr_used r = 0 then r\<lparr>pr_used := 1\<rparr> else r)"
  from createPasswordReset_rows [OF c] obtain new where
    rows: "password_resets s' = map f (password_resets s) @ [new]"
    and new: "pr_token new = tok" "tok \<notin> set (map pr_token (password_resets s))"
    unfolding f_def by blast
  from old(1) have "pr_token row \<in> set (map pr_token (password_resets s))" by simp
  with new have "pr_token row \<noteq> tok" by metis
  with x new have "x \<noteq> new" by auto
  with x rows have "x \<in> f ` set (password_resets s)" by simp
  then obtain y where y: "y \<in> set (password_resets s)" and xy: "x = f y" by (rule imageE)
  have "pr_token (f y) = pr_token y" by (simp add: f_def)
  with x xy have "pr_token y = pr_token row" by simp
  with uniq y old have "y = row" by (metis distinct_map_eqD)
  with xy old show "pr_used x \<noteq> 0" by (simp add: f_def)
qed

lemma reset_token_consumed_once:
  "getPasswordResetByToken (markPasswordResetUsed s tok) now tok = None"
proof (rule getPasswordResetByToken_None)
  fix r assume r: "r \<in> set (password_resets (markPasswordResetUsed s tok))" "pr_token r = tok"
  define g :: "password_reset_row \<Rightarrow> password_reset_row"
    where "g = (\<lambda>r. if pr_token r = tok then r\<lparr>pr_used := 1\<rparr> else r)"
  from r(1) have "r \<in> g ` set (password_resets s)"
    by (simp add: markPasswordResetUsed_def g_def)
  then obtain y where "r = g y" by (rule imageE)
  with r(2) show "pr_used r \<noteq> 0"
    by (cases "pr_token y = tok") (simp_all add: g_def)
qed

lemma post_reset_password_success:
  assumes "post_reset_password s now password_hash req = (s', resp)" "status resp = 200"
  shows "\<exists>token reset email. rr_token req = Some token \<and>
           getPasswordResetByToken s now token = Some (reset, email) \<and>
           s' = deleteUserSessions
                  (markPasswordResetUsed
                     (updateUserPassword s (pr_user_id reset) password_hash) token)
                  (pr_user_id reset)"
  using assms
  by (auto simp: post_reset_password_def Let_def split: option.splits if_splits prod.splits)

section \<open>The visitors table under the store operations\<close>

lemma visitors_upsert:
  "visitors (fst (upsertVisitor s now d)) =
     (if \<exists>v \<in> set (visitors s). v_fingerprint v = vd_fingerprint d
      then map (\<lambda>v. if v_fingerprint v = vd_fingerprint d
                     then v\<lparr>v_last_seen := datetime_now now,
                            v_ip_address := coalesce (vd_ip_address d) (v_ip_address v),
                            v_user_agent := coalesce (vd_user_agent d) (v_user_agent v)\<rparr>
                     else v) (visitors s)
      else visitors s @
           [\<lparr>v_id = new_rowid (seq_visitors s) (map v_id (visitors s)),
             v_fingerprint = vd_fingerprint d,
             v_ip_address = vd_ip_address d, v_user_agent = vd_user_agent d,
             v_language = vd_language d, v_timezone = vd_timezone d,
             v_screen_resolution = vd_screen_resolution d,
             v_platform = vd_platform d, v_referrer = vd_referrer d,
             v_query_count = 0, v_first_seen = datetime_now now,
             v_last_seen = datetime_now now\<rparr>])"
proof (cases "find (\<lambda>v. v_fingerprint v = vd_fingerprint d) (visitors s)")
  case None
  then have "\<not> (\<exists>v \<in> set (visitors s). v_fingerprint v = vd_fingerprint d)"
    by (auto simp: find_None_iff)
  with None show ?thesis by (simp add: upsertVisitor_def Let_def)
next
  case (Some a)
  then have "\<exists>v \<in> set (visitors s). v_fingerprint v = vd_fingerprint d"
    by (auto dest: find_mem)
  with Some show ?thesis by (simp add: upsertVisitor_def)
qed

lemma visitors_other_ops:
  "visitors (fst (createUser s now ud)) = visitors s"
  "visitors (fst (verifyUserEmail s now tok)) = visitors s"
  "visitors (updateUserLastLogin s now i) = visitors s"
  "visitors (updateUserPassword s i h) = visitors s"
  "visitors (fst (createSession s now sd)) = visitors s"
  "visitors (deleteSession s tok) = visitors s"
  "visitors (deleteUserSessions s i) = visitors s"
  "visitors (cleanExpiredSessions s now) = visitors s"
  "visitors (fst (logQuery s now qd)) = visitors s"
  "visitors (fst (updateQueryResult s p)) = visitors s"
  "visitors (fst (createPasswordReset s now i tok e)) = visitors s"
  "visitors (markPasswordResetUsed s tok) = visitors s"
  by (simp_all add: createUser_def verifyUserEmail_def updateUserLastLogin_def
      updateUserPassword_def createSession_def deleteSession_def deleteUserSessions_def
      cleanExpiredSessions_def logQuery_def updateQueryResult_def createPasswordReset_def
      markPasswordResetUsed_def Let_def split: option.splits)

section \<open>Facts used by the remaining handlers\<close>



lemma result_match_null: "\<not> result_match None None address q"
  by (simp add: result_match_def)

lemma updateQueryResult_null:
  "or_null (rp_user_id p) = None \<Longrightarrow> or_null (rp_visitor_id p) = None \<Longrightarrow>
   updateQueryResult s p = (s, False)"
  by (simp add: updateQueryResult_def result_match_null)

lemma session_expiry_seven_days:
  "generateSessionExpiry now = toISOString (now + 604800000)"
  by (simp add: generateSessionExpiry_def SESSION_DURATION_MS_def)

lemma session_accepted_by_date:
  assumes "r \<in> set (sessions s)" "u \<in> set (users s)" "s_user_id r = u_id u"
    and "s_expires_at r = toISOString e"
    and "\<not> text_lt (date_text e) (date_text now)"
  shows "getSessionByToken s now (s_token r) \<noteq> None"
proof -
  have "(r, u) \<in> set (select_join (sessions s) (users s)
            (\<lambda>x y. s_user_id x = u_id y \<and> s_token x = s_token r \<and>
                   text_gt (s_expires_at x) (datetime_now now)))"
    unfolding set_select_join using assms by (simp add: expiry_test_by_date)
  then have "get_first (select_join (sessions s) (users s)
            (\<lambda>x y. s_user_id x = u_id y \<and> s_token x = s_token r \<and>
                   text_gt (s_expires_at x) (datetime_now now))) \<noteq> None"
    unfolding get_first_None by auto
  then show ?thesis
    by (auto simp: getSessionByToken_def split: option.splits)
qed

section \<open>The store operations keep the schema's guarantees\<close>

text \<open>
  The empty store is consistent, and every mutating operation keeps a consistent store
  consistent: the uniqueness of tokens and the non-zero keys assumed by some theorems
  below hold in every store the operations can produce.
\<close>

lemma fold_max_ge: "(a::int) \<le> fold max xs a"
proof (induction xs arbitrary: a)
  case Nil
  show ?case by simp
next
  case (Cons x xs)
  have "a \<le> max x a" by simp
  also have "\<dots> \<le> fold max xs (max x a)" by (rule Cons.IH)
  finally show ?case by simp
qed

lemma new_rowid_positive: "0 < new_rowid seq ids"
  using fold_max_ge [of 0 ids] by (simp add: new_rowid_def)

lemma tokens_after_marking_comp:
  "map (pr_token \<circ> (\<lambda>r. if c r then r\<lparr>pr_used := 1\<rparr> else r)) xs = map pr_token xs"
  by (induction xs) auto

lemma consistent_empty_store: "consistent empty_store"
  by (simp add: consistent_def empty_store_def)

lemma users_ids_other_ops:
  "map u_id (users (fst (verifyUserEmail s now tok))) = map u_id (users s)"
  "map u_id (users (updateUserLastLogin s now i)) = map u_id (users s)"
  "map u_id (users (updateUserPassword s i h)) = map u_id (users s)"
  by (simp_all add: verifyUserEmail_def updateUserLastLogin_def updateUserPassword_def
      o_def if_distrib [of u_id] cong: if_cong split: option.splits)

lemma consistent_ids: 
  "consistent s \<longleftrightarrow>
     distinct (map s_token (sessions s)) \<and>
     distinct (map pr_token (password_resets s)) \<and>
     (\<forall>i \<in> set (map u_id (users s)). 0 < i) \<and>
     (\<forall>i \<in> set (map v_id (visitors s)). 0 < i)"
  by (auto simp: consistent_def list_all_iff)

lemma consistent_apply_op:
  assumes "consistent s"
  shows "consistent (apply_op s now op)"
proof (cases op)
  case (UpsertVisitor d)
  with assms show ?thesis
    by (auto simp: consistent_def upsertVisitor_def Let_def list_all_iff new_rowid_positive
        split: option.splits)
next
  case (IncrementVisitorQueryCount i)
  with assms show ?thesis
    by (auto simp: consistent_def incrementVisitorQueryCount_def Let_def list_all_iff)
next
  case (CreateUser d)
  with assms show ?thesis
    by (auto simp: consistent_def createUser_def Let_def list_all_iff new_rowid_positive)
next
  case (VerifyUserEmail tok)
  with assms show ?thesis
    unfolding consistent_ids by (simp add: users_ids_other_ops) (simp add: verifyUserEmail_def split: option.splits)
next
  case (UpdateUserLastLogin i)
  with assms show ?thesis
    unfolding consistent_ids by (simp add: users_ids_other_ops) (simp add: updateUserLastLogin_def)
next
  case (UpdateUserPassword i h)
  with assms show ?thesis
    unfolding consistent_ids by (simp add: users_ids_other_ops) (simp add: updateUserPassword_def)
next
  case (CreateSession d)
  with assms show ?thesis
    by (auto simp: consistent_def createSession_def Let_def list_ex_iff)
next
  case (DeleteSession tok)
  with assms show ?thesis
    by (simp add: consistent_def deleteSession_def distinct_map_filter)
next
  case (DeleteUserSessions i)
  with assms show ?thesis
    by (simp add: consistent_def deleteUserSessions_def distinct_map_filter)
next
  case CleanExpiredSessions
  with assms show ?thesis
    by (simp add: consistent_def cleanExpiredSessions_def distinct_map_filter)
next
  case (LogQuery d)
  with assms show ?thesis
    by (simp add: consistent_def logQuery_def Let_def)
next
  case (UpdateQueryResult p)
  with assms show ?thesis
    by (simp add: consistent_def updateQueryResult_def split: option.splits)
next
  case (CreatePasswordReset i tok e)
  obtain s' r where c: "createPasswordReset s now i tok e = (s', r)" by force
  show ?thesis
  proof (cases r)
    case (Inl err)
    with c have "s' = s\<lparr>password_resets :=
                    map (\<lambda>r. if pr_user_id r = i \<and> pr_used r = 0
                              then r\<lparr>pr_used := 1\<rparr> else r)
                        (password_resets s)\<rparr>"
      by (auto simp: createPasswordReset_def Let_def split: if_splits)
    with assms CreatePasswordReset c show ?thesis
      by (simp add: consistent_def tokens_after_marking_comp)
  next
    case (Inr x)
    with c createPasswordReset_rows [of s now i tok e s' x] obtain row where
      rows: "password_resets s' =
           map (\<lambda>r. if pr_user_id r = i \<and> pr_used r = 0 then r\<lparr>pr_used := 1\<rparr> else r)
             (password_resets s) @ [row]"
      and row: "pr_token row = tok" "tok \<notin> set (map pr_token (password_resets s))"
      and same: "users s' = users s" "sessions s' = sessions s"
      by auto
    have "visitors s' = visitors s"
      using c visitors_other_ops(11) [of s now i tok e] by simp
    with assms CreatePasswordReset c rows row same show ?thesis
      by (simp add: consistent_def tokens_after_marking_comp)
  qed
next
  case (MarkPasswordResetUsed tok)
  with assms show ?thesis
    by (simp add: consistent_def markPasswordResetUsed_def tokens_after_marking_comp)
qed

section \<open>The three outcomes of the query handler\<close>

text \<open>
  A call with an address is allowed and logged when its bearer token resolves to a
  session, and when it has no session but a visitor below the ceiling; every other call
  is turned away with the store as it was.
\<close>

lemma post_query_authenticated:
  assumes uid: "\<forall>u \<in> set (users s). u_id u \<noteq> 0"
    and addr: "rq_address req = Some address" "address \<noteq> []"
    and sess: "session_of s now (extractBearerToken (rq_authorization req)) = Some session"
  shows "\<exists>row i. post_query s now req =
           (s\<lparr>query_log := query_log s @ [row], seq_query_log := i\<rparr>,
            \<lparr>status = 200,
             body = [(''allowed'', JB True), (''authenticated'', JB True)]\<rparr>) \<and>
          q_user_id row = Some (sj_user_id session) \<and> q_visitor_id row = None"
proof -
  from sess obtain t where "getSessionByToken s now t = Some session"
    by (auto simp: session_of_def split: option.splits if_splits)
  then obtain u where u: "u \<in> set (users s)" "u_id u = sj_user_id session"
    using getSessionByToken_user by blast
  with uid have nz: "sj_user_id session \<noteq> 0" by auto
  define d where "d = \<lparr>qd_visitor_id = None, qd_user_id = Some (sj_user_id session),
                  qd_address = address, qd_blockchain = rq_blockchain req,
                  qd_query_type = rq_query_type req,
                  qd_ip_address = Some (rq_ip_address req),
                  qd_user_agent = rq_user_agent req,
                  qd_response_status = ''success''\<rparr>"
  have "case or_null (qd_user_id d) of None \<Rightarrow> True
        | Some i \<Rightarrow> \<exists>u \<in> set (users s). u_id u = i"
    using u nz by (auto simp: d_def)
  moreover have "case or_null (qd_visitor_id d) of None \<Rightarrow> True
        | Some i \<Rightarrow> \<exists>v \<in> set (visitors s). v_id v = i"
    by (simp add: d_def)
  ultimately obtain row i where
    lg: "logQuery s now d = (s\<lparr>query_log := query_log s @ [row], seq_query_log := i\<rparr>, Inr i)"
    and row: "q_visitor_id row = None" "q_user_id row = Some (sj_user_id session)"
    using logQuery_inserts [where d = d and s = s and now = now] nz by (auto simp: d_def)
  have "post_query s now req =
           (s\<lparr>query_log := query_log s @ [row], seq_query_log := i\<rparr>,
            \<lparr>status = 200,
             body = [(''allowed'', JB True), (''authenticated'', JB True)]\<rparr>)"
    using addr sess lg unfolding d_def by (simp add: post_query_def)
  with row show ?thesis by blast
qed

lemma post_query_anonymous_allowed:
  assumes vid: "\<forall>v \<in> set (visitors s). v_id v \<noteq> 0"
    and addr: "rq_address req = Some address" "address \<noteq> []"
    and anon: "session_of s now (extractBearerToken (rq_authorization req)) = None"
    and hdr: "rq_x_visitor_id req = Some h" "parseInt h = Some n"
    and vis: "getVisitorById s n = Some v"
    and below: "v_query_count v < 3"
  shows "\<exists>s' row. post_query s now req =
           (s', \<lparr>status = 200,
                 body = [(''allowed'', JB True), (''authenticated'', JB False),
                         (''queries_remaining'',
                          JN (max 0 (3 - (v_query_count v + 1))))]\<rparr>) \<and>
          query_log s' = query_log s @ [row] \<and>
          q_user_id row = None \<and> q_visitor_id row = Some n"
proof -
  from hdr have h: "h \<noteq> []" by (auto simp: parseInt_Nil)
  from vis have mem: "v \<in> set (visitors s)" and vn: "v_id v = n"
    by (simp_all add: getVisitorById_mem)
  obtain s1 where inc: "incrementVisitorQueryCount s n = (s1, v_query_count v + 1)"
    using incrementVisitorQueryCount_result [OF vis] by blast
  then have s1: "s1 = fst (incrementVisitorQueryCount s n)" by simp
  have mem1: "v\<lparr>v_query_count := v_query_count v + 1\<rparr> \<in> set (visitors s1)"
    using mem vn unfolding s1 by (force simp: visitors_increment)
  have ql: "query_log s1 = query_log s"
    unfolding s1 by (simp add: increment_other_tables)
  from vid mem vn have nz: "n \<noteq> 0" by auto
  define d where "d = \<lparr>qd_visitor_id = Some n, qd_user_id = None,
             qd_address = address, qd_blockchain = rq_blockchain req,
             qd_query_type = rq_query_type req,
             qd_ip_address = Some (rq_ip_address req),
             qd_user_agent = rq_user_agent req,
             qd_response_status = ''success''\<rparr>"
  have "case or_null (qd_visitor_id d) of None \<Rightarrow> True
        | Some i \<Rightarrow> \<exists>v \<in> set (visitors s1). v_id v = i"
    using mem1 vn
    by (auto simp: d_def intro!: bexI [of _ "v\<lparr>v_query_count := v_query_count v + 1\<rparr>"])
  moreover have "case or_null (qd_user_id d) of None \<Rightarrow> True
        | Some i \<Rightarrow> \<exists>u \<in> set (users s1). u_id u = i"
    by (simp add: d_def)
  ultimately obtain row i where
    lg: "logQuery s1 now d =
           (s1\<lparr>query_log := query_log s1 @ [row], seq_query_log := i\<rparr>, Inr i)"
    and row: "q_visitor_id row = Some n" "q_user_id row = None"
    using logQuery_inserts [where d = d and s = s1 and now = now] nz by (auto simp: d_def)
  have "post_query s now req =
          (s1\<lparr>query_log := query_log s1 @ [row], seq_query_log := i\<rparr>,
           \<lparr>status = 200,
                 body = [(''allowed'', JB True), (''authenticated'', JB False),
                         (''queries_remaining'',
                          JN (max 0 (3 - (v_query_count v + 1))))]\<rparr>)"
    using addr anon hdr h vis vn below inc lg unfolding d_def
    by (simp add: post_query_def)
  with row ql show ?thesis by simp
qed

lemma post_query_rejected:
  assumes "\<not> (\<exists>a. rq_address req = Some a \<and> a \<noteq> [] \<and>
              (session_of s now (extractBearerToken (rq_authorization req)) \<noteq> None \<or>
               (\<exists>h n v. rq_x_visitor_id req = Some h \<and> parseInt h = Some n \<and>
                        getVisitorById s n = Some v \<and> v_query_count v < 3)))"
  shows "fst (post_query s now req) = s \<and>
         (''allowed'', JB True) \<notin> set (body (snd (post_query s now req)))"
proof (cases "rq_address req")
  case None
  then show ?thesis by (simp add: post_query_def)
next
  case (Some address)
  note addr = this
  show ?thesis
  proof (cases "address = []")
    case True
    with addr show ?thesis by (simp add: post_query_def)
  next
    case ne: False
    with addr assms have
      anon: "session_of s now (extractBearerToken (rq_authorization req)) = None"
      and nov: "\<And>h n v. rq_x_visitor_id req = Some h \<Longrightarrow> parseInt h = Some n \<Longrightarrow>
                 getVisitorById s n = Some v \<Longrightarrow> 3 \<le> v_query_count v"
      by (auto simp: not_less)
    show ?thesis
    proof (cases "rq_x_visitor_id req")
      case None
      with addr ne anon show ?thesis by (simp add: post_query_def)
    next
      case (Some h)
      note hdr = this
      show ?thesis
      proof (cases "h \<noteq> [] \<and> (\<exists>n v. parseInt h = Some n \<and> getVisitorById s n = Some v)")
        case False
        with addr ne anon hdr show ?thesis
          by (auto simp: post_query_def split: option.splits)
      next
        case True
        then obtain n v where h: "h \<noteq> []" and p: "parseInt h = Some n"
          and v: "getVisitorById s n = Some v" by blast
        from nov [OF hdr p v] have "3 \<le> v_query_count v" .
        with addr ne anon hdr h p v show ?thesis
          by (simp add: post_query_def limit_reached_def)
      qed
    qed
  qed
qed

section \<open>Password validation\<close>

text \<open>
  Claim C7. \<open>validatePassword\<close> answers valid exactly for a string of at least 12
  characters with a letter, a digit and a symbol of the punctuation class. On a
  non-empty string each of the four rules adds its own message when it is violated,
  whatever the other rules say; an empty string and a value that is not a string get the
  single message \<open>Required\<close>.
\<close>

theorem validatePassword_rules:
  "(valid (validatePassword v) \<longleftrightarrow>
      (\<exists>p. v = JStr p \<and> 12 \<le> length p \<and> (\<exists>c \<in> set p. is_letter c) \<and>
           (\<exists>c \<in> set p. is_digit c) \<and> (\<exists>c \<in> set p. is_symbol c))) \<and>
   errors (validatePassword v) =
     (case v of
        JStr p \<Rightarrow>
          if p = [] then [Required]
          else (if length p < 12 then [TooShort] else []) @
               (if \<exists>c \<in> set p. is_letter c then [] else [NoLetter]) @
               (if \<exists>c \<in> set p. is_digit c then [] else [NoNumber]) @
               (if \<exists>c \<in> set p. is_symbol c then [] else [NoSymbol])
      | _ \<Rightarrow> [Required])"
  by (cases v) (auto simp: validatePassword_def PASSWORD_MIN_LENGTH_def Let_def list_ex_iff)

theorem validatePassword_rules_witness:
  "valid (validatePassword (JStr ''Passw0rd!2345'')) \<and>
   errors (validatePassword (JStr ''Passw0rd!2345'')) = [] \<and>
   errors (validatePassword (JStr ''Passw0rd!234'')) = [] \<and>
   errors (validatePassword (JStr ''Passw0rd!23'')) = [TooShort] \<and>
   errors (validatePassword (JStr ''12345678!2345'')) = [NoLetter] \<and>
   errors (validatePassword (JStr ''Password!abcd'')) = [NoNumber] \<and>
   errors (validatePassword (JStr ''Passw0rd12345'')) = [NoSymbol] \<and>
   errors (validatePassword (JStr ''abc'')) = [TooShort, NoNumber, NoSymbol] \<and>
   errors (validatePassword (JStr [])) = [Required] \<and>
   errors (validatePassword (JNum 123456789012)) = [Required] \<and>
   errors (validatePassword JUndefined) = [Required]"
  using validatePassword_rules [of "JStr ''Passw0rd!2345''"]
    validatePassword_rules [of "JStr ''Passw0rd!234''"]
    validatePassword_rules [of "JStr ''Passw0rd!23''"]
    validatePassword_rules [of "JStr ''12345678!2345''"]
    validatePassword_rules [of "JStr ''Password!abcd''"]
    validatePassword_rules [of "JStr ''Passw0rd12345''"]
    validatePassword_rules [of "JStr ''abc''"]
    validatePassword_rules [of "JStr []"]
    validatePassword_rules [of "JNum 123456789012"]
    validatePassword_rules [of "JUndefined"]
  by (simp add: is_letter_def is_digit_def is_symbol_def is_upper_def is_lower_def
        code_def symbol_codes_def)

section \<open>The query permission decision\<close>




section \<open>Logging of queries\<close>

text \<open>
  Claim C2, as amended. Every authenticated call of the query handler (an address, and a
  bearer token that resolves to a session) is answered \<open>allowed\<close> true and inserts
  exactly one row into the query log, with the user id of the session and no visitor
  id. Every anonymous call below the ceiling (an address, no session, a visitor id that
  resolves to a visitor with fewer than 3 queries) is answered \<open>allowed\<close> true and
  inserts exactly one row, with the visitor id and no user id. These are the only calls
  that are answered \<open>allowed\<close> true; every other call (no address, no or an unknown
  visitor id, the ceiling reached) inserts no row and leaves the store as it was. The
  ids are the keys SQLite assigns, which are never 0.
\<close>

theorem query_logged_when_allowed:
  assumes uid: "\<forall>u \<in> set (users s). u_id u \<noteq> 0"
    and vid: "\<forall>v \<in> set (visitors s). v_id v \<noteq> 0"
  shows "(\<forall>a session.
            rq_address req = Some a \<and> a \<noteq> [] \<and>
            session_of s now (extractBearerToken (rq_authorization req)) = Some session \<longrightarrow>
            snd (post_query s now req) =
              \<lparr>status = 200,
               body = [(''allowed'', JB True), (''authenticated'', JB True)]\<rparr> \<and>
            (\<exists>row. query_log (fst (post_query s now req)) = query_log s @ [row] \<and>
                   q_user_id row = Some (sj_user_id session) \<and> q_visitor_id row = None)) \<and>
         (\<forall>a h n v.
            rq_address req = Some a \<and> a \<noteq> [] \<and>
            session_of s now (extractBearerToken (rq_authorization req)) = None \<and>
            rq_x_visitor_id req = Some h \<and> parseInt h = Some n \<and>
            getVisitorById s n = Some v \<and> v_query_count v < 3 \<longrightarrow>
            snd (post_query s now req) =
              \<lparr>status = 200,
               body = [(''allowed'', JB True), (''authenticated'', JB False),
                       (''queries_remaining'',
                        JN (max 0 (3 - (v_query_count v + 1))))]\<rparr> \<and>
            (\<exists>row. query_log (fst (post_query s now req)) = query_log s @ [row] \<and>
                   q_user_id row = None \<and> q_visitor_id row = Some n)) \<and>
         ((''allowed'', JB True) \<in> set (body (snd (post_query s now req))) \<longleftrightarrow>
            (\<exists>a. rq_address req = Some a \<and> a \<noteq> [] \<and>
                 (session_of s now (extractBearerToken (rq_authorization req)) \<noteq> None \<or>
                  (\<exists>h n v. rq_x_visitor_id req = Some h \<and> parseInt h = Some n \<and>
                           getVisitorById s n = Some v \<and> v_query_count v < 3)))) \<and>
         (if (''allowed'', JB True) \<in> set (body (snd (post_query s now req)))
          then \<exists>row. query_log (fst (post_query s now req)) = query_log s @ [row] \<and>
                 (case session_of s now (extractBearerToken (rq_authorization req)) of
                    Some session \<Rightarrow>
                      q_user_id row = Some (sj_user_id session) \<and> q_visitor_id row = None
                  | None \<Rightarrow>
                      q_user_id row = None \<and>
                      (\<exists>h n. rq_x_visitor_id req = Some h \<and> parseInt h = Some n \<and>
                             getVisitorById s n \<noteq> None \<and> q_visitor_id row = Some n))
          else fst (post_query s now req) = s)"
    (is "?A \<and> ?B \<and> ?C \<and> ?D")
proof -
  let ?sess = "session_of s now (extractBearerToken (rq_authorization req))"
  have A: ?A
  proof (intro allI impI)
    fix a session
    assume "rq_address req = Some a \<and> a \<noteq> [] \<and> ?sess = Some session"
    then have p: "rq_address req = Some a" "a \<noteq> []" "?sess = Some session" by simp_all
    from post_query_authenticated [OF uid p] obtain row i where
      "post_query s now req =
           (s\<lparr>query_log := query_log s @ [row], seq_query_log := i\<rparr>,
            \<lparr>status = 200,
             body = [(''allowed'', JB True), (''authenticated'', JB True)]\<rparr>)"
      "q_user_id row = Some (sj_user_id session)" "q_visitor_id row = None"
      by blast
    then show "snd (post_query s now req) =
              \<lparr>status = 200,
               body = [(''allowed'', JB True), (''authenticated'', JB True)]\<rparr> \<and>
            (\<exists>row. query_log (fst (post_query s now req)) = query_log s @ [row] \<and>
                   q_user_id row = Some (sj_user_id session) \<and> q_visitor_id row = None)"
      by simp
  qed
  have B: ?B
  proof (intro allI impI)
    fix a h n v
    assume "rq_address req = Some a \<and> a \<noteq> [] \<and> ?sess = None \<and>
            rq_x_visitor_id req = Some h \<and> parseInt h = Some n \<and>
            getVisitorById s n = Some v \<and> v_query_count v < 3"
    then have p: "rq_address req = Some a" "a \<noteq> []" "?sess = None"
      "rq_x_visitor_id req = Some h" "parseInt h = Some n"
      "getVisitorById s n = Some v" "v_query_count v < 3" by simp_all
    from post_query_anonymous_allowed [OF vid p] obtain s' row where
      "post_query s now req =
           (s', \<lparr>status = 200,
                 body = [(''allowed'', JB True), (''authenticated'', JB False),
                         (''queries_remaining'',
                          JN (max 0 (3 - (v_query_count v + 1))))]\<rparr>)"
      "query_log s' = query_log s @ [row]" "q_user_id row = None" "q_visitor_id row = Some n"
      by blast
    then show "snd (post_query s now req) =
              \<lparr>status = 200,
               body = [(''allowed'', JB True), (''authenticated'', JB False),
                       (''queries_remaining'',
                        JN (max 0 (3 - (v_query_count v + 1))))]\<rparr> \<and>
            (\<exists>row. query_log (fst (post_query s now req)) = query_log s @ [row] \<and>
                   q_user_id row = None \<and> q_visitor_id row = Some n)"
      by simp
  qed
  let ?allowed = "\<exists>a. rq_address req = Some a \<and> a \<noteq> [] \<and>
                 (?sess \<noteq> None \<or>
                  (\<exists>h n v. rq_x_visitor_id req = Some h \<and> parseInt h = Some n \<and>
                           getVisitorById s n = Some v \<and> v_query_count v < 3))"
  show ?thesis
  proof (cases ?allowed)
    case False
    from post_query_rejected [OF False] have
      r: "fst (post_query s now req) = s"
        "(''allowed'', JB True) \<notin> set (body (snd (post_query s now req)))"
      by simp_all
    from r False have ?C by blast
    moreover from r have ?D by simp
    ultimately show ?thesis using A B by blast
  next
    case True
    then obtain a where a: "rq_address req = Some a" "a \<noteq> []"
      and alt: "?sess \<noteq> None \<or>
                  (\<exists>h n v. rq_x_visitor_id req = Some h \<and> parseInt h = Some n \<and>
                           getVisitorById s n = Some v \<and> v_query_count v < 3)"
      by blast
    show ?thesis
    proof (cases ?sess)
      case (Some session)
      with A a have
        r: "snd (post_query s now req) =
              \<lparr>status = 200,
               body = [(''allowed'', JB True), (''authenticated'', JB True)]\<rparr>"
        "\<exists>row. query_log (fst (post_query s now req)) = query_log s @ [row] \<and>
                   q_user_id row = Some (sj_user_id session) \<and> q_visitor_id row = None"
        by blast+
      from r(1) have in_body: "(''allowed'', JB True) \<in> set (body (snd (post_query s now req)))"
        by simp
      with True have ?C by blast
      moreover from in_body r(2) Some have ?D by simp
      ultimately show ?thesis using A B by blast
    next
      case None
      with alt obtain h n v where
        p: "rq_x_visitor_id req = Some h" "parseInt h = Some n"
           "getVisitorById s n = Some v" "v_query_count v < 3"
        by blast
      with B a None have
        r: "snd (post_query s now req) =
              \<lparr>status = 200,
               body = [(''allowed'', JB True), (''authenticated'', JB False),
                       (''queries_remaining'',
                        JN (max 0 (3 - (v_query_count v + 1))))]\<rparr>"
        "\<exists>row. query_log (fst (post_query s now req)) = query_log s @ [row] \<and>
                   q_user_id row = None \<and> q_visitor_id row = Some n"
        by blast+
      from r(1) have in_body: "(''allowed'', JB True) \<in> set (body (snd (post_query s now req)))"
        by simp
      with True have ?C by blast
      moreover from in_body r(2) None p have ?D by auto
      ultimately show ?thesis using A B by blast
    qed
  qed
qed

theorem query_logged_when_allowed_witness:
  "snd (post_query sample T0 (bearer_request ''Bearer session-1'')) =
     \<lparr>status = 200, body = [(''allowed'', JB True), (''authenticated'', JB True)]\<rparr> \<and>
   map (\<lambda>r. (q_user_id r, q_visitor_id r))
     (query_log (fst (post_query sample T0 (bearer_request ''Bearer session-1'')))) =
     [(Some 1, None)] \<and>
   map (\<lambda>r. (q_user_id r, q_visitor_id r))
     (query_log (fst (post_query sample T0 (anonymous_request ''1'')))) = [(None, Some 1)] \<and>
   fst (post_query sample T0 (anonymous_request ''2'')) = sample"
proof -
  have u: "\<forall>u \<in> set (users sample). u_id u \<noteq> 0"
    and v: "\<forall>v \<in> set (visitors sample). v_id v \<noteq> 0"
    by (simp_all add: sample_def user1_def user2_def visitor1_def visitor2_def)
  have a: "rq_address (bearer_request x) = Some ''0xabc''"
    "rq_address (anonymous_request x) = Some ''0xabc''"
    "rq_x_visitor_id (anonymous_request x) = Some x"
    "rq_x_visitor_id (bearer_request x) = None" for x
    by (simp_all add: bearer_request_def anonymous_request_def)
  have s1: "map_option sj_user_id (session_of sample T0
              (extractBearerToken (rq_authorization (bearer_request ''Bearer session-1'')))) = Some 1"
    by code_simp
  then obtain session where
    s1': "session_of sample T0
              (extractBearerToken (rq_authorization (bearer_request ''Bearer session-1''))) = Some session"
      "sj_user_id session = 1"
    by auto
  have s2: "session_of sample T0
              (extractBearerToken (rq_authorization (anonymous_request x))) = None" for x
    by (simp add: anonymous_request_def extractBearerToken_def session_of_def)
  have p: "parseInt ''1'' = Some 1" "parseInt ''2'' = Some 2" by code_simp+
  have g: "getVisitorById sample 1 = Some visitor1" "getVisitorById sample 2 = Some visitor2"
    by code_simp+
  have c: "v_query_count visitor1 = 2" "v_query_count visitor2 = 3"
    by (simp_all add: visitor1_def visitor2_def)
  have q: "query_log sample = []" by (simp add: sample_def)
  note t1 = query_logged_when_allowed [OF u v, of "bearer_request ''Bearer session-1''" T0]
  note t2 = query_logged_when_allowed [OF u v, of "anonymous_request ''1''" T0]
  note t3 = query_logged_when_allowed [OF u v, of "anonymous_request ''2''" T0]
  from t1 s1' a have
    "snd (post_query sample T0 (bearer_request ''Bearer session-1'')) =
     \<lparr>status = 200, body = [(''allowed'', JB True), (''authenticated'', JB True)]\<rparr>"
    "\<exists>row. query_log (fst (post_query sample T0 (bearer_request ''Bearer session-1''))) =
             query_log sample @ [row] \<and> q_user_id row = Some 1 \<and> q_visitor_id row = None"
    by auto
  moreover from t2 s2 a p g c have
    "\<exists>row. query_log (fst (post_query sample T0 (anonymous_request ''1''))) =
             query_log sample @ [row] \<and> q_user_id row = None \<and> q_visitor_id row = Some 1"
    by auto
  moreover from t3 s2 a p g c have
    "fst (post_query sample T0 (anonymous_request ''2'')) = sample"
    by (auto split: if_splits)
  ultimately show ?thesis by (auto simp: q)
qed

text \<open>
  Claim C2 as stated asks for one insertion on every call, the rejected anonymous ones
  included: the second visitor of the sample store is at the ceiling, the call is
  rejected with \<open>limit_reached\<close> and the log stays empty.
\<close>

theorem rejected_query_not_logged:
  "snd (post_query sample T0 (anonymous_request ''2'')) = limit_reached \<and>
   query_log sample = [] \<and>
   query_log (fst (post_query sample T0 (anonymous_request ''2''))) = []"
  by code_simp

section \<open>Password reset tokens\<close>

text \<open>
  Claim C4. After \<open>createPasswordReset\<close> there is exactly one unused token of the user,
  earlier tokens can no longer be consumed, and a token is consumable once and only
  before its expiry. The first three parts hold (\<open>createPasswordReset_one_unused\<close>,
  \<open>earlier_reset_token_rejected\<close>, \<open>reset_token_consumed_once\<close>). The last does not:
  the token issued at 2024-01-01T10:00:00Z expires at 11:00:00Z, and at 11:01:00 it is
  still fetched and the reset request under it succeeds (see \<open>expiry_test_by_date\<close>).
\<close>

theorem reset_token_consumed_after_expiry:
  "generatePasswordResetExpiry T0 = ''2024-01-01T11:00:00.000Z'' \<and>
   map (\<lambda>r. (pr_token r, pr_expires_at r, pr_used r)) (password_resets issued) =
     [(''reset-1'', ''2024-01-01T11:00:00.000Z'', 1),
      (''reset-2'', ''2024-01-01T11:00:00.000Z'', 0)] \<and>
   datetime_now (T0 + 3600000 + 60000) = ''2024-01-01 11:01:00'' \<and>
   map_option (pr_token \<circ> fst)
     (getPasswordResetByToken issued (T0 + 3600000 + 60000) ''reset-2'') = Some ''reset-2'' \<and>
   snd (post_reset_password issued (T0 + 3600000 + 60000) ''hash-new''
          (new_password ''reset-2'')) =
     \<lparr>status = 200,
      body = [(''success'', JB True), (''message'', JS ''Password updated successfully'')]\<rparr>"
  by code_simp

section \<open>Sessions after a password reset\<close>

text \<open>
  Claim C5. A reset request that succeeds (status 200) consumes a valid reset token and
  leaves no session of the user who owns the token: a session token of that user that
  the lookup accepted before the request is rejected after it, at any clock. Session
  tokens are unique, as the schema requires.
\<close>

theorem reset_password_deletes_sessions:
  assumes ok: "post_reset_password s now password_hash req = (s', resp)" "status resp = 200"
    and uniq: "distinct (map s_token (sessions s))"
  shows "\<exists>token reset email. rr_token req = Some token \<and>
           getPasswordResetByToken s now token = Some (reset, email) \<and>
           (\<forall>r \<in> set (sessions s'). s_user_id r \<noteq> pr_user_id reset) \<and>
           (\<forall>t sess now'. getSessionByToken s now t = Some sess \<and>
                           sj_user_id sess = pr_user_id reset \<longrightarrow>
                           getSessionByToken s' now' t = None)"
proof -
  from post_reset_password_success [OF ok] obtain token reset email where
    tok: "rr_token req = Some token"
    and res: "getPasswordResetByToken s now token = Some (reset, email)"
    and s': "s' = deleteUserSessions
                  (markPasswordResetUsed
                     (updateUserPassword s (pr_user_id reset) password_hash) token)
                  (pr_user_id reset)"
    by blast
  have rows: "sessions s' = filter (\<lambda>r. s_user_id r \<noteq> pr_user_id reset) (sessions s)"
    by (simp add: s' deleteUserSessions_def markPasswordResetUsed_def updateUserPassword_def)
  have gone: "\<forall>r \<in> set (sessions s'). s_user_id r \<noteq> pr_user_id reset"
    by (simp add: rows)
  have "getSessionByToken s' now' t = None"
    if a: "getSessionByToken s now t = Some sess" and b: "sj_user_id sess = pr_user_id reset"
    for t sess now'
  proof (rule getSessionByToken_None)
    fix r assume r: "r \<in> set (sessions s')"
    from getSessionByToken_row [OF a] b obtain r0 where
      r0: "r0 \<in> set (sessions s)" "s_token r0 = t" "s_user_id r0 = pr_user_id reset"
      by auto
    show "s_token r \<noteq> t"
    proof
      assume "s_token r = t"
      moreover from r have "r \<in> set (sessions s)" by (simp add: rows)
      ultimately have "r = r0" using uniq r0 by (metis distinct_map_eqD)
      with r r0 gone show False by simp
    qed
  qed
  with tok res gone show ?thesis by blast
qed

theorem reset_password_deletes_sessions_witness:
  "getSessionByToken sample T0 ''session-1'' \<noteq> None \<and>
   getSessionByToken
     (fst (post_reset_password sample T0 ''hash-new'' (new_password ''reset-1'')))
     T0 ''session-1'' = None"
proof -
  let ?p = "post_reset_password sample T0 ''hash-new'' (new_password ''reset-1'')"
  have a: "?p = (fst ?p, snd ?p)" by simp
  have b: "status (snd ?p) = 200" by code_simp
  have d: "distinct (map s_token (sessions sample))" by code_simp
  have t: "rr_token (new_password ''reset-1'') = Some ''reset-1''"
    by (simp add: new_password_def)
  have g: "map_option (pr_user_id \<circ> fst) (getPasswordResetByToken sample T0 ''reset-1'') = Some 1"
    by code_simp
  have e: "map_option sj_user_id (getSessionByToken sample T0 ''session-1'') = Some 1"
    by code_simp
  from reset_password_deletes_sessions [OF a b d] t g e show ?thesis
    by (auto simp: map_option_case split: option.splits)
qed

section \<open>The visitor counter never decreases\<close>

text \<open>
  Claim C8. Every mutating operation of the store keeps each visitor row in its place,
  with its id, and never lowers its \<open>query_count\<close>. The counter changes only under
  \<open>incrementVisitorQueryCount\<close> for the id of the row, and then by exactly one. An
  upsert leaves the counter as it is: on the rows with its fingerprint it sets
  \<open>last_seen\<close> to the clock and replaces the address and the user agent by the new
  ones where these are given; the other rows are unchanged.
\<close>

theorem query_count_monotone:
  assumes k: "k < length (visitors s)"
  shows "k < length (visitors (apply_op s now op)) \<and>
         v_id (visitors (apply_op s now op) ! k) = v_id (visitors s ! k) \<and>
         v_query_count (visitors s ! k) \<le> v_query_count (visitors (apply_op s now op) ! k) \<and>
         v_query_count (visitors (apply_op s now op) ! k) =
           (if op = IncrementVisitorQueryCount (v_id (visitors s ! k))
            then v_query_count (visitors s ! k) + 1 else v_query_count (visitors s ! k)) \<and>
         (\<forall>d. op = UpsertVisitor d \<longrightarrow>
            visitors (apply_op s now op) ! k =
              (if v_fingerprint (visitors s ! k) = vd_fingerprint d
               then (visitors s ! k)
                      \<lparr>v_last_seen := datetime_now now,
                       v_ip_address := coalesce (vd_ip_address d) (v_ip_address (visitors s ! k)),
                       v_user_agent := coalesce (vd_user_agent d) (v_user_agent (visitors s ! k))\<rparr>
               else visitors s ! k))"
proof (cases op)
  case (UpsertVisitor d)
  from k have "visitors s ! k \<in> set (visitors s)" by simp
  with k UpsertVisitor show ?thesis
    by (auto simp: visitors_upsert nth_append)
next
  case (IncrementVisitorQueryCount i)
  with k show ?thesis by (simp add: visitors_increment)
qed (use k in \<open>simp_all add: visitors_other_ops\<close>)

theorem query_count_monotone_witness:
  "v_query_count (visitors sample ! 0) = 2 \<and>
   v_query_count (visitors (apply_op sample T0 (IncrementVisitorQueryCount 1)) ! 0) = 3 \<and>
   v_query_count (visitors (apply_op sample T0 (IncrementVisitorQueryCount 2)) ! 0) = 2 \<and>
   v_query_count (visitors (apply_op sample T0 (DeleteUserSessions 1)) ! 0) = 2 \<and>
   visitors (apply_op sample T0 (UpsertVisitor returning)) ! 0 =
     visitor1\<lparr>v_last_seen := ''2024-01-01 10:00:00'', v_ip_address := Some ''10.0.0.9''\<rparr>"
proof -
  have k: "0 < length (visitors sample)" by (simp add: sample_def)
  have v: "visitors sample ! 0 = visitor1" by (simp add: sample_def)
  have f: "v_id visitor1 = 1" "v_query_count visitor1 = 2" "v_fingerprint visitor1 = ''abc123''"
    "v_user_agent visitor1 = Some ''Mozilla''"
    by (simp_all add: visitor1_def)
  have r: "vd_fingerprint returning = ''abc123''" "vd_ip_address returning = Some ''10.0.0.9''"
    "vd_user_agent returning = None"
    by (simp_all add: returning_def)
  have t: "datetime_now T0 = ''2024-01-01 10:00:00''" by code_simp
  show ?thesis
    using query_count_monotone [OF k, of T0 "IncrementVisitorQueryCount 1"]
      query_count_monotone [OF k, of T0 "IncrementVisitorQueryCount 2"]
      query_count_monotone [OF k, of T0 "DeleteUserSessions 1"]
      query_count_monotone [OF k, of T0 "UpsertVisitor returning"]
    by (simp add: v f r t coalesce_def)
qed

section \<open>The forgot-password response\<close>



section \<open>Reporting a result without an identity\<close>

text \<open>
  Claim C10. A call of the result endpoint without a valid session and without an
  \<^verbatim>\<open>X-Visitor-Id\<close> header leaves the store as it is: both ids are \<^verbatim>\<open>NULL\<close> and the match
  predicate holds for no row of the log. The endpoint still answers \<open>success\<close> true,
  whenever the body passes its validation (an address and one of the three statuses).
\<close>

theorem query_result_without_identity:
  assumes anon: "session_of s now (extractBearerToken (rs_authorization req)) = None"
    and hdr: "\<not> present (rs_x_visitor_id req)"
  shows "fst (post_query_result s now req) = s \<and>
         \<not> result_match None None address q \<and>
         (snd (post_query_result s now req) = \<lparr>status = 200, body = [(''success'', JB True)]\<rparr>
            \<longleftrightarrow> (\<exists>a st. rs_address req = Some a \<and> a \<noteq> [] \<and>
                        rs_response_status req = Some st \<and> st \<in> set validStatuses))"
proof -
  have v: "(case rs_x_visitor_id req of None \<Rightarrow> None
            | Some h \<Rightarrow> if h = [] then None else parseInt h) = None"
    using hdr by (cases "rs_x_visitor_id req") auto
  have nil: "[] \<notin> set validStatuses" by (simp add: validStatuses_def)
  show ?thesis
    using anon nil
    by (auto simp: post_query_result_def v updateQueryResult_null result_match_null
        split: option.splits prod.splits)
qed

theorem query_result_without_identity_witness:
  "map q_address (query_log logged) = [''0xabc''] \<and>
   fst (post_query_result logged T0 report) = logged \<and>
   snd (post_query_result logged T0 report) =
     \<lparr>status = 200, body = [(''success'', JB True)]\<rparr>"
proof -
  have a: "session_of logged T0 (extractBearerToken (rs_authorization report)) = None"
    by (simp add: report_def extractBearerToken_def session_of_def)
  have h: "\<not> present (rs_x_visitor_id report)"
    by (simp add: report_def)
  have l: "map q_address (query_log logged) = [''0xabc'']"
    by code_simp
  have b: "\<exists>a st. rs_address report = Some a \<and> a \<noteq> [] \<and>
             rs_response_status report = Some st \<and> st \<in> set validStatuses"
    by (simp add: report_def validStatuses_def)
  show ?thesis
    using query_result_without_identity [OF a h] b l by simp
qed

section \<open>Session expiry\<close>

text \<open>
  Claim C6. A session is created with an expiry seven days after its creation, and the
  claim has it accepted strictly before that instant and rejected after it: usable at
  six days and 23 hours, rejected at seven days and one minute. The code sets the expiry
  as claimed and accepts the session at six days and 23 hours, but it still accepts it
  at seven days and one minute: the session created at 2024-01-01T10:00:00Z is returned
  by the lookup at 2024-01-08 10:01:00 and for the rest of that day, and is rejected
  from 2024-01-09 00:00:00 on (see \<open>expiry_test_by_date\<close> and
  \<open>session_accepted_by_date\<close>).
\<close>

theorem session_accepted_after_seven_days:
  "snd (createSession sample T0 login) =
     Inr \<lparr>sr_id = 3, sr_token = ''session-3'',
          sr_expires_at = toISOString (T0 + 7 * 86400000)\<rparr> \<and>
   toISOString (T0 + 7 * 86400000) = ''2024-01-08T10:00:00.000Z'' \<and>
   getSessionByToken (fst (createSession sample T0 login))
     (T0 + 6 * 86400000 + 23 * 3600000) ''session-3'' \<noteq> None \<and>
   datetime_now (T0 + 7 * 86400000 + 60000) = ''2024-01-08 10:01:00'' \<and>
   map_option sj_expires_at
     (getSessionByToken (fst (createSession sample T0 login))
        (T0 + 7 * 86400000 + 60000) ''session-3'') = Some ''2024-01-08T10:00:00.000Z'' \<and>
   datetime_now (T0 + 7 * 86400000 + 14 * 3600000) = ''2024-01-09 00:00:00'' \<and>
   getSessionByToken (fst (createSession sample T0 login))
     (T0 + 7 * 86400000 + 14 * 3600000) ''session-3'' = None"
  by code_simp

section \<open>Superuser status\<close>


end
